theory Spec2Isabelle
  imports Main "HOL-Library.Word" "HOL-Library.AList" "HOL-Library.Multiset"
begin

section \<open>The reactor shim of p2p/shim.go\<close>

text \<open>
  A shallow embedding of \<^verbatim>\<open>p2p/shim.go\<close>. Every method of \<^verbatim>\<open>ReactorShim\<close> is a function
  from the receiver and the world to either a panic or the (possibly updated) receiver and
  world. The world holds what the methods act on outside the receiver: the Go channels
  (whether each is closed, or has a receiver blocked on it), and the trace of every
  observable effect (a value handed over on a channel, a validator hook called, a log
  line, a peer send, a close), in the order of occurrence.
\<close>

subsection \<open>Values\<close>

type_synonym byte = "8 word"
type_synonym bytes = "byte list"

text \<open>A Go channel is named by its address; \<^verbatim>\<open>make\<close> hands out the next free one.\<close>

type_synonym chan = nat

text \<open>
  All channels of the shim are unbuffered. Such a channel is closed, or open with no
  goroutine blocked in a receive on it, or open with one blocked (a closed channel has no
  blocked receiver: closing wakes them all).
\<close>

datatype chan_status = Closed | NoReceiver | ReceiverReady

datatype panic =
    Panic string
  | NilDereference
  | SendOnClosedChannel
  | CloseOfClosedChannel
  | IndexOutOfRange

datatype level = LvlError | LvlDebug

text \<open>
  Modelled from the spec: the type \<^verbatim>\<open>ChannelID\<close> is declared outside shim.go; the spec calls
  it a stable small integer made from the descriptor's byte ID. It is taken as a 16-bit
  unsigned integer, and the conversion \<^verbatim>\<open>ChannelID(b)\<close> of a byte as the zero extension.
\<close>

type_synonym ChannelID = "16 word"

definition ChannelID :: "byte \<Rightarrow> ChannelID" where
  "ChannelID b = ucast b"

text \<open>The two status constants that shim.go uses.\<close>

datatype PeerStatus = PeerStatusUp | PeerStatusDown

text \<open>The legacy peer: \<^verbatim>\<open>ID()\<close> is its string identity.\<close>

record Peer =
  Peer_ID :: string

record 'p PeerUpdate =
  PeerID :: 'p
  Status :: PeerStatus

record ('m, 'p) Envelope =
  From :: 'p
  To :: 'p
  Message :: 'm

text \<open>
  Of a channel descriptor shim.go reads the field \<^verbatim>\<open>ID\<close> only; the other fields, declared
  outside shim.go, are the extension of the record.
\<close>

record ChannelDescriptor =
  ID :: byte

text \<open>
  Modelled from the spec: \<^verbatim>\<open>NewChannel\<close> and the struct \<^verbatim>\<open>Channel\<close> are outside shim.go, which
  reads the fields \<^verbatim>\<open>ID\<close> and \<^verbatim>\<open>messageType\<close>. The spec: the three endpoints are wrapped "in a
  new-style channel handle bound to that channel's ID and message type".
\<close>

record 'm Channel =
  Channel_ID :: ChannelID
  messageType :: 'm
  inCh :: chan
  outCh :: chan
  errCh :: chan

definition NewChannel :: "ChannelID \<Rightarrow> 'm \<Rightarrow> chan \<Rightarrow> chan \<Rightarrow> chan \<Rightarrow> 'm Channel" where
  "NewChannel cID mType i out e =
     \<lparr>Channel_ID = cID, messageType = mType, inCh = i, outCh = out, errCh = e\<rparr>"

text \<open>A pointer to a descriptor is \<open>None\<close> when nil.\<close>

record ('m, 'z) ChannelShim =
  Descriptor :: "'z ChannelDescriptor_scheme option"
  Channel :: "'m Channel"
  InCh :: chan
  OutCh :: chan
  PeerErrCh :: chan

record ('m, 'z) ChannelDescriptorShim =
  MsgType :: 'm
  Descriptor_cds :: "'z ChannelDescriptor_scheme option"

text \<open>
  The validator interface. \<^verbatim>\<open>Validate\<close> returns an error or nil (\<open>None\<close>);
  \<^verbatim>\<open>OnUnmarshalFailure\<close> returns nothing, so a call of it is an event of the trace only.
\<close>

record 'm MessageValidator =
  Validate :: "byte \<Rightarrow> Peer \<Rightarrow> bytes \<Rightarrow> 'm \<Rightarrow> string option"

text \<open>
  Modelled from the spec: the embedded \<^verbatim>\<open>BaseReactor\<close> is outside shim.go. Of it the shim
  uses \<^verbatim>\<open>IsRunning()\<close> and \<^verbatim>\<open>Switch.peers.Get(id)\<close> (the spec: "IsRunning() bool; PeerByID(id)
  -> Peer|nil"). \<open>Switch_peers\<close> is \<open>None\<close> while the \<^verbatim>\<open>Switch\<close> pointer is nil.
\<close>

record BaseReactor =
  IsRunning :: bool
  Switch_peers :: "(string \<Rightarrow> Peer option) option"

text \<open>
  A Go map is the list of its entries, with pairwise distinct keys; \<^verbatim>\<open>m[k] = v\<close> is
  \<open>AList.update\<close>, \<^verbatim>\<open>m[k]\<close> is \<open>map_of\<close>, \<^verbatim>\<open>len(m)\<close> is \<open>length\<close>. The values of \<^verbatim>\<open>Channels\<close> are
  the structs that \<^verbatim>\<open>&ChannelShim{...}\<close> allocates.
\<close>

record ('m, 'z) ReactorShim =
  BaseReactor :: BaseReactor
  Name :: string
  PeerUpdateCh :: chan
  Channels :: "(ChannelID \<times> ('m, 'z) ChannelShim) list"
  MessageValidator :: "'m MessageValidator option"

text \<open>
  A \<^verbatim>\<open>range\<close> over a map visits every entry once, in an order that the language leaves open.
  Each loop over the map takes the order of its visit as an argument \<open>es\<close>, which is any
  arrangement of the entries.
\<close>

definition range_order :: "('k \<times> 'v) list \<Rightarrow> ('k \<times> 'v) list \<Rightarrow> bool" where
  "range_order es m \<longleftrightarrow> mset es = mset m"

subsection \<open>The world: channels and the trace of effects\<close>

datatype ('m, 'p) event =
    EnvelopeSent chan "('m, 'p) Envelope"
  | PeerUpdateSent chan "'p PeerUpdate"
  | ChanClosed chan
  | ChannelClose "'m Channel"
  | OnUnmarshalFailure byte Peer bytes string
  | ValidateCall byte Peer bytes 'm
  | PeerSend Peer byte bytes
  | Logged level string
  | GoProxy byte chan

record ('m, 'p) world =
  next_chan :: nat
  status :: "chan \<Rightarrow> chan_status"
  trace :: "('m, 'p) event list"

definition emit :: "('m, 'p) event \<Rightarrow> ('m, 'p) world \<Rightarrow> ('m, 'p) world" where
  "emit e w = w\<lparr>trace := trace w @ [e]\<rparr>"

text \<open>\<^verbatim>\<open>rs.Logger.Error\<close> and \<^verbatim>\<open>rs.Logger.Debug\<close>: the level and the message are kept.\<close>

definition logger :: "level \<Rightarrow> string \<Rightarrow> ('m, 'p) world \<Rightarrow> ('m, 'p) world" where
  "logger l s w = emit (Logged l s) w"

text \<open>\<^verbatim>\<open>make(chan T)\<close>: a fresh, open channel that nobody receives on yet.\<close>

definition make_chan :: "('m, 'p) world \<Rightarrow> chan \<times> ('m, 'p) world" where
  "make_chan w =
     (next_chan w,
      w\<lparr>next_chan := Suc (next_chan w), status := (status w)(next_chan w := NoReceiver)\<rparr>)"

text \<open>
  \<^verbatim>\<open>select { case ch <- v: ... default: ... }\<close>: one attempt to hand \<open>v\<close> over. The result tells
  which branch ran. A send on a closed channel panics, also inside a \<^verbatim>\<open>select\<close> with a
  default branch. The event \<open>ev\<close> records the value handed over.
\<close>

definition select_send :: "chan \<Rightarrow> ('m, 'p) event \<Rightarrow> ('m, 'p) world \<Rightarrow> panic + (bool \<times> ('m, 'p) world)" where
  "select_send ch ev w =
     (case status w ch of
        Closed \<Rightarrow> Inl SendOnClosedChannel
      | NoReceiver \<Rightarrow> Inr (False, w)
      | ReceiverReady \<Rightarrow> Inr (True, emit ev w))"

text \<open>\<^verbatim>\<open>close(ch)\<close> panics on a channel that is closed already.\<close>

definition close_chan :: "chan \<Rightarrow> ('m, 'p) world \<Rightarrow> panic + ('m, 'p) world" where
  "close_chan ch w =
     (case status w ch of
        Closed \<Rightarrow> Inl CloseOfClosedChannel
      | _ \<Rightarrow> Inr (emit (ChanClosed ch) (w\<lparr>status := (status w)(ch := Closed)\<rparr>)))"

subsection \<open>Functions from outside shim.go\<close>

text \<open>
  The functions that shim.go calls and that other packages or other files define are
  parameters: the protobuf library (\<^verbatim>\<open>proto.Clone\<close>, \<^verbatim>\<open>Reset\<close>, \<^verbatim>\<open>proto.Unmarshal\<close>, which returns
  an error or leaves the decoded message; \<^verbatim>\<open>proto.Marshal\<close>), \<^verbatim>\<open>PeerIDFromString\<close>, the
  \<^verbatim>\<open>String\<close> method and the zero value of a peer identity, the result of \<^verbatim>\<open>Channel.Close\<close> and of
  \<^verbatim>\<open>Peer.Send\<close>. A Go \<^verbatim>\<open>error\<close> is its text.
\<close>

record ('m, 'p) externals =
  proto_Clone :: "'m \<Rightarrow> 'm"
  proto_Reset :: "'m \<Rightarrow> 'm"
  proto_Unmarshal :: "bytes \<Rightarrow> 'm \<Rightarrow> string + 'm"
  proto_Marshal :: "'m \<Rightarrow> string + bytes"
  PeerIDFromString :: "string \<Rightarrow> string + 'p"
  PeerID_String :: "'p \<Rightarrow> string"
  PeerID_zero :: 'p
  Channel_Close :: "'m Channel \<Rightarrow> string option"
  Peer_Send :: "Peer \<Rightarrow> byte \<Rightarrow> bytes \<Rightarrow> bool"

subsection \<open>NewShim\<close>

fun NewShim_range ::
  "('m, 'z) ChannelDescriptorShim option list \<Rightarrow> (ChannelID \<times> ('m, 'z) ChannelShim) list \<Rightarrow>
   ('m, 'p) world \<Rightarrow> panic + ((ChannelID \<times> ('m, 'z) ChannelShim) list \<times> ('m, 'p) world)" where
  "NewShim_range [] channels w = Inr (channels, w)"
| "NewShim_range (None # descriptors) channels w = Inl NilDereference"
| "NewShim_range (Some cds # descriptors) channels w =
     (case Descriptor_cds cds of
        None \<Rightarrow> Inl NilDereference
      | Some d \<Rightarrow>
          (let cID = ChannelID (ID d);
               (inCh, w1) = make_chan w;
               (outCh, w2) = make_chan w1;
               (peerErrCh, w3) = make_chan w2
           in NewShim_range descriptors
                (AList.update cID
                   \<lparr>Descriptor = Descriptor_cds cds,
                    Channel = NewChannel cID (MsgType cds) inCh outCh peerErrCh,
                    InCh = inCh, OutCh = outCh, PeerErrCh = peerErrCh\<rparr>
                   channels)
                w3))"

text \<open>\<open>br\<close> is the value of \<^verbatim>\<open>*NewBaseReactor(name, impl)\<close>.\<close>

definition NewShim ::
  "string \<Rightarrow> BaseReactor \<Rightarrow> ('m, 'z) ChannelDescriptorShim option list \<Rightarrow>
   'm MessageValidator option \<Rightarrow> ('m, 'p) world \<Rightarrow> panic + (('m, 'z) ReactorShim \<times> ('m, 'p) world)" where
  "NewShim name br descriptors msgVal w =
     (case NewShim_range descriptors [] w of
        Inl p \<Rightarrow> Inl p
      | Inr (channels, w1) \<Rightarrow>
          (let (pu, w2) = make_chan w1
           in Inr (\<lparr>BaseReactor = br, Name = name, PeerUpdateCh = pu,
                     Channels = channels, MessageValidator = msgVal\<rparr>, w2)))"

subsection \<open>The outbound proxy\<close>

text \<open>
  The body of the loop \<^verbatim>\<open>for e := range outCh\<close> of one proxy goroutine, for one envelope \<open>e\<close>
  taken from the channel.
\<close>

definition proxy_envelope ::
  "('m, 'p) externals \<Rightarrow> ('m, 'z) ReactorShim \<Rightarrow> byte \<Rightarrow> ('m, 'p) Envelope \<Rightarrow>
   ('m, 'p) world \<Rightarrow> panic + ('m, 'p) world" where
  "proxy_envelope X rs chID e w =
     (case Switch_peers (BaseReactor rs) of
        None \<Rightarrow> Inl NilDereference
      | Some peers \<Rightarrow>
          (case peers (PeerID_String X (To e)) of
             None \<Rightarrow>
               Inl (Panic (''failed to proxy envelope; failed to find peer (''
                           @ PeerID_String X (To e) @ '')''))
           | Some src \<Rightarrow>
               (case proto_Marshal X (Message e) of
                  Inl err \<Rightarrow>
                    Inl (Panic (''failed to proxy envelope; failed to encode message: '' @ err))
                | Inr bz \<Rightarrow>
                    (let _ = Peer_Send X src chID bz
                     in Inr (emit (PeerSend src chID bz) w)))))"

text \<open>
  The goroutine, on the envelopes \<open>es\<close> that the outbound channel yields until it is
  closed: it stops at the first panic.
\<close>

fun proxy_loop ::
  "('m, 'p) externals \<Rightarrow> ('m, 'z) ReactorShim \<Rightarrow> byte \<Rightarrow> ('m, 'p) Envelope list \<Rightarrow>
   ('m, 'p) world \<Rightarrow> panic + ('m, 'p) world" where
  "proxy_loop X rs chID [] w = Inr w"
| "proxy_loop X rs chID (e # es) w =
     (case proxy_envelope X rs chID e w of
        Inl p \<Rightarrow> Inl p
      | Inr w' \<Rightarrow> proxy_loop X rs chID es w')"

text \<open>
  \<^verbatim>\<open>proxyPeerEnvelopes\<close> starts one goroutine for each entry of the map, with the
  descriptor's ID and the outbound endpoint of the entry.
\<close>

fun proxyPeerEnvelopes ::
  "(ChannelID \<times> ('m, 'z) ChannelShim) list \<Rightarrow> ('m, 'p) world \<Rightarrow> panic + ('m, 'p) world" where
  "proxyPeerEnvelopes [] w = Inr w"
| "proxyPeerEnvelopes ((k, c) # es) w =
     (case Descriptor c of
        None \<Rightarrow> Inl NilDereference
      | Some d \<Rightarrow> proxyPeerEnvelopes es (emit (GoProxy (ID d) (OutCh c)) w))"

text \<open>
  The goroutine that \<^verbatim>\<open>proxyPeerEnvelopes\<close> starts with the arguments \<open>t = (chID, outCh)\<close>:
  \<^verbatim>\<open>for e := range outCh\<close> takes the envelopes that the channel \<open>outCh\<close> yields until it is
  closed, which is the list \<open>feed outCh\<close>, and handles each with \<open>chID\<close>.
\<close>

definition proxy_task ::
  "('m, 'p) externals \<Rightarrow> ('m, 'z) ReactorShim \<Rightarrow> byte \<times> chan \<Rightarrow> (chan \<Rightarrow> ('m, 'p) Envelope list) \<Rightarrow>
   ('m, 'p) world \<Rightarrow> panic + ('m, 'p) world" where
  "proxy_task X rs t feed w = proxy_loop X rs (fst t) (feed (snd t)) w"

subsection \<open>The methods of the legacy reactor interface\<close>

fun GetChannels_range ::
  "(ChannelID \<times> ('m, 'z) ChannelShim) list \<Rightarrow> 'z ChannelDescriptor_scheme option list \<Rightarrow> nat \<Rightarrow>
   panic + 'z ChannelDescriptor_scheme option list" where
  "GetChannels_range [] descriptors i = Inr descriptors"
| "GetChannels_range ((k, c) # es) descriptors i =
     (if i < length descriptors
      then GetChannels_range es (descriptors[i := Descriptor c]) (i + 1)
      else Inl IndexOutOfRange)"

definition GetChannels ::
  "(ChannelID \<times> ('m, 'z) ChannelShim) list \<Rightarrow> ('m, 'z) ReactorShim \<Rightarrow> ('m, 'p) world \<Rightarrow>
   panic + ('z ChannelDescriptor_scheme option list \<times> ('m, 'z) ReactorShim \<times> ('m, 'p) world)" where
  "GetChannels es rs w =
     (case GetChannels_range es (replicate (length (Channels rs)) None) 0 of
        Inl p \<Rightarrow> Inl p
      | Inr descriptors \<Rightarrow> Inr (descriptors, rs, w))"

text \<open>\<^verbatim>\<open>OnStart\<close> returns the error nil (\<open>None\<close>).\<close>

definition OnStart ::
  "(ChannelID \<times> ('m, 'z) ChannelShim) list \<Rightarrow> ('m, 'z) ReactorShim \<Rightarrow> ('m, 'p) world \<Rightarrow>
   panic + (string option \<times> ('m, 'z) ReactorShim \<times> ('m, 'p) world)" where
  "OnStart es rs w =
     (if IsRunning (BaseReactor rs)
      then (case proxyPeerEnvelopes es w of
              Inl p \<Rightarrow> Inl p
            | Inr w' \<Rightarrow> Inr (None, rs, w'))
      else Inr (None, rs, w))"

fun OnStop_range ::
  "('m, 'p) externals \<Rightarrow> (ChannelID \<times> ('m, 'z) ChannelShim) list \<Rightarrow> ('m, 'p) world \<Rightarrow> ('m, 'p) world" where
  "OnStop_range X [] w = w"
| "OnStop_range X ((k, cs) # es) w =
     (let w1 = emit (ChannelClose (Channel cs)) w
      in case Channel_Close X (Channel cs) of
           Some err \<Rightarrow> OnStop_range X es (logger LvlError ''failed to close channel'' w1)
         | None \<Rightarrow> OnStop_range X es w1)"

definition OnStop ::
  "('m, 'p) externals \<Rightarrow> (ChannelID \<times> ('m, 'z) ChannelShim) list \<Rightarrow> ('m, 'z) ReactorShim \<Rightarrow>
   ('m, 'p) world \<Rightarrow> panic + (('m, 'z) ReactorShim \<times> ('m, 'p) world)" where
  "OnStop X es rs w =
     (case close_chan (PeerUpdateCh rs) (OnStop_range X es w) of
        Inl p \<Rightarrow> Inl p
      | Inr w' \<Rightarrow> Inr (rs, w'))"

definition AddPeer ::
  "('m, 'p) externals \<Rightarrow> Peer \<Rightarrow> ('m, 'z) ReactorShim \<Rightarrow> ('m, 'p) world \<Rightarrow>
   panic + (('m, 'z) ReactorShim \<times> ('m, 'p) world)" where
  "AddPeer X peer rs w =
     (case PeerIDFromString X (Peer_ID peer) of
        Inl err \<Rightarrow> Inl (Panic err)
      | Inr peerID \<Rightarrow>
          (case select_send (PeerUpdateCh rs)
                  (PeerUpdateSent (PeerUpdateCh rs) \<lparr>PeerID = peerID, Status = PeerStatusUp\<rparr>) w of
             Inl p \<Rightarrow> Inl p
           | Inr (True, w') \<Rightarrow> Inr (rs, logger LvlDebug ''sent peer update'' w')
           | Inr (False, w') \<Rightarrow> Inr (rs, logger LvlDebug ''dropped peer update'' w')))"

text \<open>The \<^verbatim>\<open>reason\<close> argument of \<^verbatim>\<open>RemovePeer\<close> is not used by its body.\<close>

definition RemovePeer ::
  "('m, 'p) externals \<Rightarrow> Peer \<Rightarrow> 'r \<Rightarrow> ('m, 'z) ReactorShim \<Rightarrow> ('m, 'p) world \<Rightarrow>
   panic + (('m, 'z) ReactorShim \<times> ('m, 'p) world)" where
  "RemovePeer X peer reason rs w =
     (case PeerIDFromString X (Peer_ID peer) of
        Inl err \<Rightarrow> Inl (Panic err)
      | Inr peerID \<Rightarrow>
          (case select_send (PeerUpdateCh rs)
                  (PeerUpdateSent (PeerUpdateCh rs) \<lparr>PeerID = peerID, Status = PeerStatusDown\<rparr>) w of
             Inl p \<Rightarrow> Inl p
           | Inr (True, w') \<Rightarrow> Inr (rs, logger LvlDebug ''sent peer update'' w')
           | Inr (False, w') \<Rightarrow> Inr (rs, logger LvlDebug ''dropped peer update'' w')))"

text \<open>
  \<^verbatim>\<open>Receive\<close>. The pair \<open>(verdict, w1)\<close> is the error of the validator's \<^verbatim>\<open>Validate\<close> (nil when
  no validator is configured, and then nothing is called) and the world after that call.
\<close>

definition Receive ::
  "('m, 'p) externals \<Rightarrow> byte \<Rightarrow> Peer \<Rightarrow> bytes \<Rightarrow> ('m, 'z) ReactorShim \<Rightarrow> ('m, 'p) world \<Rightarrow>
   panic + (('m, 'z) ReactorShim \<times> ('m, 'p) world)" where
  "Receive X chID src msgBytes rs w =
     (if \<not> IsRunning (BaseReactor rs) then Inr (rs, w)
      else
        (let cID = ChannelID chID in
         case map_of (Channels rs) cID of
           None \<Rightarrow> Inr (rs, logger LvlError ''unexpected channel'' w)
         | Some channelShim \<Rightarrow>
             (let msg0 = proto_Reset X (proto_Clone X (messageType (Channel channelShim))) in
              case proto_Unmarshal X msgBytes msg0 of
                Inl err \<Rightarrow>
                  (let w1 = logger LvlError ''error decoding message'' w in
                   case MessageValidator rs of
                     None \<Rightarrow> Inr (rs, w1)
                   | Some v \<Rightarrow> Inr (rs, emit (OnUnmarshalFailure chID src msgBytes err) w1))
              | Inr msg \<Rightarrow>
                  (case (case MessageValidator rs of
                           None \<Rightarrow> (None, w)
                         | Some v \<Rightarrow>
                             (Validate v chID src msgBytes msg,
                              emit (ValidateCall chID src msgBytes msg) w)) of
                     (Some err, w1) \<Rightarrow> Inr (rs, logger LvlError ''invalid message'' w1)
                   | (None, w1) \<Rightarrow>
                       (case PeerIDFromString X (Peer_ID src) of
                          Inl err \<Rightarrow> Inl (Panic err)
                        | Inr peerID \<Rightarrow>
                            (case select_send (InCh channelShim)
                                    (EnvelopeSent (InCh channelShim)
                                       \<lparr>From = peerID, To = PeerID_zero X, Message = msg\<rparr>) w1 of
                               Inl p \<Rightarrow> Inl p
                             | Inr (True, w2) \<Rightarrow>
                                 Inr (rs, logger LvlDebug ''proxied envelope'' w2)
                             | Inr (False, w2) \<Rightarrow>
                                 Inr (rs, logger LvlDebug ''dropped envelope'' w2)))))))"

subsection \<open>Sequences of calls\<close>

text \<open>
  The life of a shim after its construction: calls of its methods (each loop over the map
  with the order of its visit), and in between the steps of everything else, which may
  change what the embedded base reactor reports (started, stopped, switch set) and which
  channels are closed or have a receiver blocked on them.
\<close>

datatype ('m, 'z) call =
    CallReceive byte Peer bytes
  | CallAddPeer Peer
  | CallRemovePeer Peer string
  | CallOnStart "(ChannelID \<times> ('m, 'z) ChannelShim) list"
  | CallOnStop "(ChannelID \<times> ('m, 'z) ChannelShim) list"
  | CallGetChannels "(ChannelID \<times> ('m, 'z) ChannelShim) list"
  | Environment BaseReactor "chan \<Rightarrow> chan_status"

fun step ::
  "('m, 'p) externals \<Rightarrow> ('m, 'z) call \<Rightarrow> ('m, 'z) ReactorShim \<Rightarrow> ('m, 'p) world \<Rightarrow>
   panic + (('m, 'z) ReactorShim \<times> ('m, 'p) world)" where
  "step X (CallReceive chID src msgBytes) rs w = Receive X chID src msgBytes rs w"
| "step X (CallAddPeer peer) rs w = AddPeer X peer rs w"
| "step X (CallRemovePeer peer reason) rs w = RemovePeer X peer reason rs w"
| "step X (CallOnStart es) rs w =
     (case OnStart es rs w of Inl p \<Rightarrow> Inl p | Inr (err, rs', w') \<Rightarrow> Inr (rs', w'))"
| "step X (CallOnStop es) rs w = OnStop X es rs w"
| "step X (CallGetChannels es) rs w =
     (case GetChannels es rs w of Inl p \<Rightarrow> Inl p | Inr (ds, rs', w') \<Rightarrow> Inr (rs', w'))"
| "step X (Environment br st) rs w = Inr (rs\<lparr>BaseReactor := br\<rparr>, w\<lparr>status := st\<rparr>)"

fun run ::
  "('m, 'p) externals \<Rightarrow> ('m, 'z) call list \<Rightarrow> ('m, 'z) ReactorShim \<Rightarrow> ('m, 'p) world \<Rightarrow>
   panic + (('m, 'z) ReactorShim \<times> ('m, 'p) world)" where
  "run X [] rs w = Inr (rs, w)"
| "run X (c # cs) rs w =
     (case step X c rs w of Inl p \<Rightarrow> Inl p | Inr (rs', w') \<Rightarrow> run X cs rs' w')"

subsection \<open>Reading the trace\<close>

text \<open>The envelopes handed over on channels, with the channel, in order.\<close>

fun sent_envelopes :: "('m, 'p) event list \<Rightarrow> (chan \<times> ('m, 'p) Envelope) list" where
  "sent_envelopes [] = []"
| "sent_envelopes (EnvelopeSent ch e # tr) = (ch, e) # sent_envelopes tr"
| "sent_envelopes (_ # tr) = sent_envelopes tr"

text \<open>The peer updates handed over on channels.\<close>

fun sent_peer_updates :: "('m, 'p) event list \<Rightarrow> (chan \<times> 'p PeerUpdate) list" where
  "sent_peer_updates [] = []"
| "sent_peer_updates (PeerUpdateSent ch u # tr) = (ch, u) # sent_peer_updates tr"
| "sent_peer_updates (_ # tr) = sent_peer_updates tr"

text \<open>The calls of the validator's two hooks, with their arguments.\<close>

fun unmarshal_failures :: "('m, 'p) event list \<Rightarrow> (byte \<times> Peer \<times> bytes \<times> string) list" where
  "unmarshal_failures [] = []"
| "unmarshal_failures (OnUnmarshalFailure c p b e # tr) = (c, p, b, e) # unmarshal_failures tr"
| "unmarshal_failures (_ # tr) = unmarshal_failures tr"

fun validate_calls :: "('m, 'p) event list \<Rightarrow> (byte \<times> Peer \<times> bytes \<times> 'm) list" where
  "validate_calls [] = []"
| "validate_calls (ValidateCall c p b m # tr) = (c, p, b, m) # validate_calls tr"
| "validate_calls (_ # tr) = validate_calls tr"

text \<open>The calls of \<^verbatim>\<open>Peer.Send\<close>: the peer, the channel byte, the payload.\<close>

fun peer_sends :: "('m, 'p) event list \<Rightarrow> (Peer \<times> byte \<times> bytes) list" where
  "peer_sends [] = []"
| "peer_sends (PeerSend p c b # tr) = (p, c, b) # peer_sends tr"
| "peer_sends (_ # tr) = peer_sends tr"

text \<open>The channel handles on which \<^verbatim>\<open>Close\<close> was called, and the Go channels closed.\<close>

fun channel_closes :: "('m, 'p) event list \<Rightarrow> 'm Channel list" where
  "channel_closes [] = []"
| "channel_closes (ChannelClose c # tr) = c # channel_closes tr"
| "channel_closes (_ # tr) = channel_closes tr"

fun chan_closes :: "('m, 'p) event list \<Rightarrow> chan list" where
  "chan_closes [] = []"
| "chan_closes (ChanClosed c # tr) = c # chan_closes tr"
| "chan_closes (_ # tr) = chan_closes tr"

text \<open>The messages logged at a level.\<close>

fun logged :: "level \<Rightarrow> ('m, 'p) event list \<Rightarrow> string list" where
  "logged l [] = []"
| "logged l (Logged l' s # tr) = (if l' = l then s # logged l tr else logged l tr)"
| "logged l (_ # tr) = logged l tr"

text \<open>The goroutines started, each with its two arguments.\<close>

fun started_tasks :: "('m, 'p) event list \<Rightarrow> (byte \<times> chan) list" where
  "started_tasks [] = []"
| "started_tasks (GoProxy chID out # tr) = (chID, out) # started_tasks tr"
| "started_tasks (_ # tr) = started_tasks tr"

text \<open>
  The arguments of the goroutine of a channel shim: the ID of its descriptor and its
  outbound endpoint (none when the descriptor pointer is nil).
\<close>

definition task_of :: "('m, 'z) ChannelShim \<Rightarrow> (byte \<times> chan) option" where
  "task_of c = (case Descriptor c of None \<Rightarrow> None | Some d \<Rightarrow> Some (ID d, OutCh c))"

subsection \<open>Configured descriptors\<close>

text \<open>
  The slice that \<^verbatim>\<open>NewShim\<close> is given, for a list of message types and descriptors: every
  pointer of it points to a descriptor shim, and every descriptor shim to its descriptor.
\<close>

definition shims_of ::
  "('m \<times> 'z ChannelDescriptor_scheme) list \<Rightarrow> ('m, 'z) ChannelDescriptorShim option list" where
  "shims_of tds = map (\<lambda>(t, d). Some \<lparr>MsgType = t, Descriptor_cds = Some d\<rparr>) tds"

text \<open>The last entry of the list whose descriptor has the channel ID \<open>k\<close>.\<close>

definition last_with ::
  "ChannelID \<Rightarrow> ('m \<times> 'z ChannelDescriptor_scheme) list \<Rightarrow> ('m \<times> 'z ChannelDescriptor_scheme) option" where
  "last_with k tds = List.find (\<lambda>(t, d). ChannelID (ID d) = k) (rev tds)"

text \<open>What a channel shim keeps of the entry it was built from.\<close>

definition shim_view :: "('m, 'z) ChannelShim \<Rightarrow> 'm \<times> 'z ChannelDescriptor_scheme option" where
  "shim_view cs = (messageType (Channel cs), Descriptor cs)"

subsection \<open>Example values\<close>

text \<open>
  A descriptor with one more field than the ID, standing for the fields that shim.go never
  reads; messages that are numbers, decoded from a payload as its length; peer identities
  that are the strings themselves, a string of odd length having none (as for an identity
  written in hexadecimal); a validator that rejects the message 1; a handle whose \<^verbatim>\<open>Close\<close>
  fails on channel 2.
\<close>

record ChannelDescriptorP = ChannelDescriptor +
  Priority :: int

definition X0 :: "(nat, string) externals" where
  "X0 = \<lparr>proto_Clone = (\<lambda>m. m), proto_Reset = (\<lambda>m. 0),
          proto_Unmarshal = (\<lambda>bz m. if bz = [] then Inl ''unexpected EOF'' else Inr (length bz)),
          proto_Marshal = (\<lambda>m. if m = 0 then Inl ''nil message'' else Inr (replicate m 0)),
          PeerIDFromString =
            (\<lambda>s. if odd (length s) then Inl ''encoding/hex: odd length hex string'' else Inr s),
          PeerID_String = (\<lambda>p. p), PeerID_zero = [],
          Channel_Close = (\<lambda>c. if Channel_ID c = 2 then Some ''already closed'' else None),
          Peer_Send = (\<lambda>p c bz. True)\<rparr>"

definition peer0 :: Peer where
  "peer0 = \<lparr>Peer_ID = ''aa''\<rparr>"

definition peer_odd :: Peer where
  "peer_odd = \<lparr>Peer_ID = ''abc''\<rparr>"

definition br_new :: BaseReactor where
  "br_new = \<lparr>IsRunning = False, Switch_peers = None\<rparr>"

definition br_running :: BaseReactor where
  "br_running =
     \<lparr>IsRunning = True, Switch_peers = Some (\<lambda>s. if s = ''aa'' then Some peer0 else None)\<rparr>"

definition val0 :: "nat MessageValidator" where
  "val0 = \<lparr>Validate = (\<lambda>chID src bz msg. if msg = 1 then Some ''too short'' else None)\<rparr>"

definition world0 :: "(nat, string) world" where
  "world0 = \<lparr>next_chan = 0, status = (\<lambda>c. NoReceiver), trace = []\<rparr>"

definition tds2 :: "(nat \<times> ChannelDescriptorP) list" where
  "tds2 = [(0, \<lparr>ID = 1, Priority = 5\<rparr>), (0, \<lparr>ID = 2, Priority = 6\<rparr>)]"

definition tds_dup :: "(nat \<times> ChannelDescriptorP) list" where
  "tds_dup = [(0, \<lparr>ID = 1, Priority = 5\<rparr>), (0, \<lparr>ID = 1, Priority = 6\<rparr>)]"

text \<open>The shim that \<^verbatim>\<open>NewShim\<close> builds from \<open>tds2\<close> in the fresh world, and the world after.\<close>

definition cs1 :: "(nat, unit ChannelDescriptorP_ext) ChannelShim" where
  "cs1 = \<lparr>Descriptor = Some \<lparr>ID = 1, Priority = 5\<rparr>, Channel = NewChannel 1 0 0 1 2,
           InCh = 0, OutCh = 1, PeerErrCh = 2\<rparr>"

definition cs2 :: "(nat, unit ChannelDescriptorP_ext) ChannelShim" where
  "cs2 = \<lparr>Descriptor = Some \<lparr>ID = 2, Priority = 6\<rparr>, Channel = NewChannel 2 0 3 4 5,
           InCh = 3, OutCh = 4, PeerErrCh = 5\<rparr>"

definition shim2 :: "(nat, unit ChannelDescriptorP_ext) ReactorShim" where
  "shim2 = \<lparr>BaseReactor = br_running, Name = ''shim'', PeerUpdateCh = 6,
             Channels = [(1, cs1), (2, cs2)], MessageValidator = Some val0\<rparr>"

definition world2 :: "(nat, string) world" where
  "world2 = \<lparr>next_chan = 7, status = (\<lambda>c. NoReceiver), trace = []\<rparr>"

text \<open>The same shim while its base reactor is not running; a world with receivers everywhere.\<close>

definition shim2_stopped :: "(nat, unit ChannelDescriptorP_ext) ReactorShim" where
  "shim2_stopped = shim2\<lparr>BaseReactor := br_new\<rparr>"

definition world_ready :: "(nat, string) world" where
  "world_ready = \<lparr>next_chan = 7, status = (\<lambda>c. ReceiverReady), trace = []\<rparr>"

text \<open>The shim that \<^verbatim>\<open>NewShim\<close> builds from \<open>tds_dup\<close>, two descriptors with the ID 1.\<close>

definition cs_dup :: "(nat, unit ChannelDescriptorP_ext) ChannelShim" where
  "cs_dup = \<lparr>Descriptor = Some \<lparr>ID = 1, Priority = 6\<rparr>, Channel = NewChannel 1 0 3 4 5,
              InCh = 3, OutCh = 4, PeerErrCh = 5\<rparr>"

definition shim_dup :: "(nat, unit ChannelDescriptorP_ext) ReactorShim" where
  "shim_dup = \<lparr>BaseReactor = br_new, Name = ''shim'', PeerUpdateCh = 6,
                Channels = [(1, cs_dup)], MessageValidator = None\<rparr>"

text \<open>The world after \<^verbatim>\<open>proxyPeerEnvelopes\<close> of \<open>shim2\<close> in \<open>world2\<close>, channel 2 visited first.\<close>

definition world_started :: "(nat, string) world" where
  "world_started = world2\<lparr>trace := [GoProxy 2 4, GoProxy 1 1]\<rparr>"

text \<open>The world after a first \<^verbatim>\<open>OnStop\<close> of \<open>shim2\<close> in \<open>world2\<close>.\<close>

definition world_stopped :: "(nat, string) world" where
  "world_stopped =
     world2\<lparr>status := (status world2)(6 := Closed),
            trace := [ChannelClose (Channel cs1), ChannelClose (Channel cs2),
                      Logged LvlError ''failed to close channel'', ChanClosed 6]\<rparr>"

section \<open>Properties\<close>

subsection \<open>Auxiliary facts\<close>

lemmas world_defs = emit_def logger_def select_send_def

lemmas example_defs = X0_def peer0_def peer_odd_def br_new_def br_running_def val0_def
  world0_def tds2_def tds_dup_def cs1_def cs2_def shim2_def shim2_stopped_def world2_def
  world_ready_def cs_dup_def shim_dup_def world_started_def world_stopped_def NewChannel_def ChannelID_def

lemma sent_envelopes_append: "sent_envelopes (a @ b) = sent_envelopes a @ sent_envelopes b"
  by (induction a rule: sent_envelopes.induct) auto

lemma sent_peer_updates_append:
  "sent_peer_updates (a @ b) = sent_peer_updates a @ sent_peer_updates b"
  by (induction a rule: sent_peer_updates.induct) auto

lemma unmarshal_failures_append:
  "unmarshal_failures (a @ b) = unmarshal_failures a @ unmarshal_failures b"
  by (induction a rule: unmarshal_failures.induct) auto

lemma validate_calls_append: "validate_calls (a @ b) = validate_calls a @ validate_calls b"
  by (induction a rule: validate_calls.induct) auto

lemma peer_sends_append: "peer_sends (a @ b) = peer_sends a @ peer_sends b"
  by (induction a rule: peer_sends.induct) auto

lemma channel_closes_append: "channel_closes (a @ b) = channel_closes a @ channel_closes b"
  by (induction a rule: channel_closes.induct) auto

lemma chan_closes_append: "chan_closes (a @ b) = chan_closes a @ chan_closes b"
  by (induction a rule: chan_closes.induct) auto

lemma logged_append: "logged l (a @ b) = logged l a @ logged l b"
  by (induction l a rule: logged.induct) auto

lemma started_tasks_append: "started_tasks (a @ b) = started_tasks a @ started_tasks b"
  by (induction a rule: started_tasks.induct) auto

lemmas obs_append = sent_envelopes_append sent_peer_updates_append unmarshal_failures_append
  validate_calls_append peer_sends_append channel_closes_append chan_closes_append logged_append
  started_tasks_append

text \<open>The conversion of a byte to a channel ID loses nothing.\<close>

lemma ChannelID_inj: "ChannelID a = ChannelID b \<longleftrightarrow> a = b"
proof
  assume "ChannelID a = ChannelID b"
  then have "(ucast (ucast a :: 16 word) :: 8 word) = ucast (ucast b :: 16 word)"
    by (simp add: ChannelID_def)
  then show "a = b"
    by (simp add: ucast_up_ucast_id is_up)
qed simp

lemma find_snoc:
  "List.find P (xs @ [x]) =
     (case List.find P xs of Some y \<Rightarrow> Some y | None \<Rightarrow> if P x then Some x else None)"
  by (induction xs) auto

lemma find_SomeD: "List.find P xs = Some x \<Longrightarrow> x \<in> set xs \<and> P x"
  by (induction xs) (auto split: if_splits)

lemma last_with_Some:
  "last_with k tds = Some (t, d) \<Longrightarrow> (t, d) \<in> set tds \<and> ChannelID (ID d) = k"
  using find_SomeD [of "\<lambda>(t, d). ChannelID (ID d) = k" "rev tds" "(t, d)"]
  by (simp add: last_with_def)

lemma last_with_None:
  "last_with k tds = None \<longleftrightarrow> k \<notin> (\<lambda>x. ChannelID (ID (snd x))) ` set tds"
  by (force simp: last_with_def find_None_iff)

text \<open>
  The loop of \<^verbatim>\<open>NewShim\<close> over non-nil descriptors returns; it keeps the keys of the map
  distinct; under every key lies a shim built from the last entry with that channel ID.
\<close>

lemma NewShim_range_shims_of:
  "\<exists>chs w'. NewShim_range (shims_of tds) acc w = Inr (chs, w') \<and>
     (distinct (map fst acc) \<longrightarrow> distinct (map fst chs)) \<and>
     (\<forall>k. map_option shim_view (map_of chs k) =
           (case last_with k tds of
              Some (t, d) \<Rightarrow> Some (t, Some d)
            | None \<Rightarrow> map_option shim_view (map_of acc k)))"
proof (induction tds arbitrary: acc w)
  case Nil
  then show ?case by (simp add: shims_of_def last_with_def)
next
  case (Cons td tds)
  obtain t d where td: "td = (t, d)" by (cases td)
  define i where "i = fst (make_chan w)"
  define w1 where "w1 = snd (make_chan w)"
  define out where "out = fst (make_chan w1)"
  define w2 where "w2 = snd (make_chan w1)"
  define e where "e = fst (make_chan w2)"
  define w3 where "w3 = snd (make_chan w2)"
  define sh :: "('a, 'b) ChannelShim" where
    "sh = \<lparr>Descriptor = Some d, Channel = NewChannel (ChannelID (ID d)) t i out e,
           InCh = i, OutCh = out, PeerErrCh = e\<rparr>"
  have step: "NewShim_range (shims_of (td # tds)) acc w =
              NewShim_range (shims_of tds) (AList.update (ChannelID (ID d)) sh acc) w3"
    by (simp add: shims_of_def td Let_def split_beta i_def w1_def out_def w2_def e_def w3_def sh_def)
  from Cons.IH [of "AList.update (ChannelID (ID d)) sh acc" w3]
  obtain chs w' where
    r: "NewShim_range (shims_of tds) (AList.update (ChannelID (ID d)) sh acc) w3 = Inr (chs, w')"
    and dist: "distinct (map fst (AList.update (ChannelID (ID d)) sh acc)) \<longrightarrow> distinct (map fst chs)"
    and view: "\<forall>k. map_option shim_view (map_of chs k) =
           (case last_with k tds of
              Some (t, d) \<Rightarrow> Some (t, Some d)
            | None \<Rightarrow> map_option shim_view (map_of (AList.update (ChannelID (ID d)) sh acc) k))"
    by blast
  have v: "shim_view sh = (t, Some d)"
    by (simp add: shim_view_def sh_def NewChannel_def)
  have "\<forall>k. map_option shim_view (map_of chs k) =
           (case last_with k (td # tds) of
              Some (t, d) \<Rightarrow> Some (t, Some d)
            | None \<Rightarrow> map_option shim_view (map_of acc k))"
    using view v
    by (auto simp: last_with_def find_snoc td update_conv' split: option.splits)
  with step r dist show ?case
    by (simp add: distinct_update)
qed

lemma NewShim_shims_of:
  "\<exists>rs w1. NewShim name br (shims_of tds) msgVal w0 = Inr (rs, w1) \<and>
     BaseReactor rs = br \<and> Name rs = name \<and> MessageValidator rs = msgVal \<and>
     distinct (map fst (Channels rs)) \<and>
     (\<forall>k. map_option shim_view (map_of (Channels rs) k) =
           (case last_with k tds of Some (t, d) \<Rightarrow> Some (t, Some d) | None \<Rightarrow> None))"
proof -
  obtain chs w' where r: "NewShim_range (shims_of tds) [] w0 = Inr (chs, w')"
    and d: "distinct (map fst chs)"
    and v: "\<forall>k. map_option shim_view (map_of chs k) =
           (case last_with k tds of Some (t, d) \<Rightarrow> Some (t, Some d) | None \<Rightarrow> None)"
    using NewShim_range_shims_of [of tds "[]" w0] by (auto cong: option.case_cong)
  show ?thesis
    using r d v by (simp add: NewShim_def split_beta)
qed

text \<open>A nil pointer among the descriptors makes \<^verbatim>\<open>NewShim\<close> panic.\<close>

lemma NewShim_nil:
  "NewShim name br (None # descriptors) msgVal w0 = Inl NilDereference"
  "NewShim name br (Some \<lparr>MsgType = t, Descriptor_cds = None\<rparr> # descriptors) msgVal w0 =
     Inl NilDereference"
  by (simp_all add: NewShim_def)

lemma keys_of_view:
  assumes "\<forall>k. map_option shim_view (map_of chs k) =
           (case last_with k tds of Some (t, d) \<Rightarrow> Some (t, Some d) | None \<Rightarrow> None)"
  shows "fst ` set chs = (\<lambda>x. ChannelID (ID (snd x))) ` set tds"
proof -
  have "k \<in> fst ` set chs \<longleftrightarrow> k \<in> (\<lambda>x. ChannelID (ID (snd x))) ` set tds" for k
  proof -
    have "k \<in> fst ` set chs \<longleftrightarrow> map_of chs k \<noteq> None"
      by (simp add: map_of_eq_None_iff)
    also have "\<dots> \<longleftrightarrow> last_with k tds \<noteq> None"
      using assms [rule_format, of k] by (auto split: option.splits)
    finally show ?thesis by (simp add: last_with_None)
  qed
  then show ?thesis by blast
qed

lemma descriptors_of_view:
  assumes d: "distinct (map fst chs)"
    and v: "\<forall>k. map_option shim_view (map_of chs k) =
           (case last_with k tds of Some (t, d) \<Rightarrow> Some (t, Some d) | None \<Rightarrow> None)"
    and inj: "\<forall>a \<in> snd ` set tds. \<forall>b \<in> snd ` set tds. ID a = ID b \<longrightarrow> a = b"
  shows "(\<lambda>x. Descriptor (snd x)) ` set chs = Some ` snd ` set tds"
proof (intro set_eqI iffI)
  fix x assume "x \<in> (\<lambda>x. Descriptor (snd x)) ` set chs"
  then obtain k cs where kc: "(k, cs) \<in> set chs" and x: "x = Descriptor cs" by auto
  from kc d have m: "map_of chs k = Some cs" by simp
  with v [rule_format, of k] obtain t dd where l: "last_with k tds = Some (t, dd)"
      and "shim_view cs = (t, Some dd)"
    by (auto split: option.splits)
  then have "Descriptor cs = Some dd" by (simp add: shim_view_def)
  moreover have "(t, dd) \<in> set tds" using l by (simp add: last_with_Some)
  ultimately show "x \<in> Some ` snd ` set tds" using x by force
next
  fix x assume "x \<in> Some ` snd ` set tds"
  then obtain t dd where td: "(t, dd) \<in> set tds" and x: "x = Some dd" by auto
  let ?k = "ChannelID (ID dd)"
  have "?k \<in> (\<lambda>x. ChannelID (ID (snd x))) ` set tds"
    using td by force
  then have "last_with ?k tds \<noteq> None"
    by (simp add: last_with_None)
  then obtain t' d' where l: "last_with ?k tds = Some (t', d')" by auto
  then have in': "(t', d') \<in> set tds" and "ChannelID (ID d') = ?k"
    by (simp_all add: last_with_Some)
  then have "ID d' = ID dd" by (simp add: ChannelID_inj)
  with inj td in' have e: "d' = dd" by force
  from v [rule_format, of ?k] l obtain cs where m: "map_of chs ?k = Some cs"
      and "shim_view cs = (t', Some d')"
    by (auto split: option.splits)
  then have "Descriptor cs = Some dd" using e by (simp add: shim_view_def)
  moreover have "(?k, cs) \<in> set chs" using m by (rule map_of_SomeD)
  ultimately show "x \<in> (\<lambda>x. Descriptor (snd x)) ` set chs" using x by force
qed

text \<open>The loop of \<^verbatim>\<open>GetChannels\<close> fills the slots from \<open>i\<close> on, one for each entry visited.\<close>

lemma GetChannels_range_fill:
  "i + length es \<le> length ds \<Longrightarrow>
   GetChannels_range es ds i =
     Inr (take i ds @ map (\<lambda>x. Descriptor (snd x)) es @ drop (i + length es) ds)"
proof (induction es arbitrary: ds i)
  case Nil
  then show ?case by simp
next
  case (Cons a es)
  obtain k c where a: "a = (k, c)" by (cases a)
  have i: "i < length ds" using Cons.prems by simp
  have "GetChannels_range (a # es) ds i = GetChannels_range es (ds[i := Descriptor c]) (i + 1)"
    using i by (simp add: a)
  also have "\<dots> = Inr (take (i + 1) (ds[i := Descriptor c]) @ map (\<lambda>x. Descriptor (snd x)) es
                       @ drop (i + 1 + length es) (ds[i := Descriptor c]))"
    using Cons.prems by (intro Cons.IH) simp
  also have "take (i + 1) (ds[i := Descriptor c]) = take i ds @ [Descriptor c]"
    using i by (simp add: take_Suc_conv_app_nth)
  also have "drop (i + 1 + length es) (ds[i := Descriptor c]) = drop (i + length (a # es)) ds"
    by simp
  finally show ?case by (simp add: a)
qed

lemma GetChannels_returns:
  assumes "range_order es (Channels rs)"
  shows "GetChannels es rs w = Inr (map (\<lambda>x. Descriptor (snd x)) es, rs, w)"
proof -
  have "length es = length (Channels rs)"
    using assms by (metis range_order_def size_mset)
  then show ?thesis
    using GetChannels_range_fill [of 0 es "replicate (length (Channels rs)) None"]
    by (simp add: GetChannels_def)
qed

text \<open>The outbound proxy: one more envelope; the result of \<^verbatim>\<open>Send\<close> is not looked at.\<close>

lemma proxy_loop_snoc:
  "proxy_loop X rs chID (es @ [e]) w =
     (case proxy_loop X rs chID es w of Inl p \<Rightarrow> Inl p | Inr w1 \<Rightarrow> proxy_envelope X rs chID e w1)"
  by (induction es arbitrary: w) (auto split: sum.splits)

lemma proxy_envelope_Send_unused:
  "proxy_envelope (X\<lparr>Peer_Send := f\<rparr>) rs chID e w = proxy_envelope X rs chID e w"
  by (simp add: proxy_envelope_def Let_def split: option.splits sum.splits)

lemma proxy_loop_Send_unused:
  "proxy_loop (X\<lparr>Peer_Send := f\<rparr>) rs chID es w = proxy_loop X rs chID es w"
  by (induction es arbitrary: w) (auto simp: proxy_envelope_Send_unused split: sum.splits)

text \<open>
  \<^verbatim>\<open>proxyPeerEnvelopes\<close> starts one goroutine for each entry visited, with the ID of the
  entry's descriptor and the entry's outbound endpoint.
\<close>

lemma proxyPeerEnvelopes_tasks:
  "proxyPeerEnvelopes es w = Inr w' \<Longrightarrow>
   \<exists>ts. started_tasks (trace w') = started_tasks (trace w) @ ts \<and>
        map Some ts = map (\<lambda>x. task_of (snd x)) es"
proof (induction es arbitrary: w)
  case Nil
  then show ?case by simp
next
  case (Cons a es)
  obtain k c where a: "a = (k, c)" by (cases a)
  from Cons.prems a obtain d where d: "Descriptor c = Some d"
      and r: "proxyPeerEnvelopes es (emit (GoProxy (ID d) (OutCh c)) w) = Inr w'"
    by (auto split: option.splits)
  from Cons.IH [OF r] obtain ts where
      ts: "started_tasks (trace w') =
             started_tasks (trace (emit (GoProxy (ID d) (OutCh c)) w)) @ ts"
          "map Some ts = map (\<lambda>x. task_of (snd x)) es"
    by blast
  have "started_tasks (trace w') = started_tasks (trace w) @ ((ID d, OutCh c) # ts) \<and>
        map Some ((ID d, OutCh c) # ts) = map (\<lambda>x. task_of (snd x)) (a # es)"
    using ts a d by (simp add: emit_def started_tasks_append task_of_def)
  then show ?case by blast
qed

text \<open>
  The goroutine started with \<open>(chID, out)\<close>, when \<open>out\<close> yields one more envelope \<open>e\<close> after
  the envelopes \<open>envs\<close> that it has handled without a panic.
\<close>

lemma proxy_task_outcome:
  assumes "proxy_task X rs (chID, out) (feed(out := envs)) w = Inr w1"
    and "feed out = envs @ [e]"
  shows "((case Switch_peers (BaseReactor rs) of
             None \<Rightarrow> None
           | Some peers \<Rightarrow> peers (PeerID_String X (To e))) = None \<or>
          (\<exists>err. proto_Marshal X (Message e) = Inl err)
          \<longrightarrow> (\<exists>p. proxy_task X rs (chID, out) feed w = Inl p)) \<and>
         (\<forall>peers src bz.
            Switch_peers (BaseReactor rs) = Some peers \<and>
            peers (PeerID_String X (To e)) = Some src \<and>
            proto_Marshal X (Message e) = Inr bz
            \<longrightarrow> (\<exists>w2. proxy_task X rs (chID, out) feed w = Inr w2 \<and>
                       trace w2 = trace w1 @ [PeerSend src chID bz] \<and>
                       peer_sends (trace w2) = peer_sends (trace w1) @ [(src, chID, bz)])) \<and>
         (\<forall>f. proxy_task (X\<lparr>Peer_Send := f\<rparr>) rs (chID, out) feed w =
               proxy_task X rs (chID, out) feed w)"
  using assms
  by (auto simp: proxy_task_def proxy_loop_snoc proxy_envelope_def emit_def peer_sends_append
                 proxy_loop_Send_unused
           split: option.splits sum.splits)

text \<open>The loop of \<^verbatim>\<open>OnStop\<close> touches no Go channel, and calls \<^verbatim>\<open>Close\<close> on each handle visited.\<close>

lemma OnStop_range_frame:
  "status (OnStop_range X es w) = status w \<and> next_chan (OnStop_range X es w) = next_chan w"
  by (induction es arbitrary: w) (auto simp: world_defs Let_def split: option.splits)

lemma OnStop_range_trace:
  "\<exists>tr. trace (OnStop_range X es w) = trace w @ tr \<and>
        chan_closes tr = [] \<and>
        channel_closes tr = map (\<lambda>x. Channel (snd x)) es \<and>
        logged LvlError tr =
          map (\<lambda>_. ''failed to close channel'')
            (filter (\<lambda>c. Channel_Close X c \<noteq> None) (map (\<lambda>x. Channel (snd x)) es))"
proof (induction es arbitrary: w)
  case Nil
  then show ?case by simp
next
  case (Cons a es)
  obtain k cs where a: "a = (k, cs)" by (cases a)
  let ?w1 = "emit (ChannelClose (Channel cs)) w"
  show ?case
  proof (cases "Channel_Close X (Channel cs)")
    case None
    from Cons.IH [of ?w1]
    obtain tr where tr: "trace (OnStop_range X es ?w1) = trace ?w1 @ tr"
        "chan_closes tr = []" "channel_closes tr = map (\<lambda>x. Channel (snd x)) es"
        "logged LvlError tr =
          map (\<lambda>_. ''failed to close channel'')
            (filter (\<lambda>c. Channel_Close X c \<noteq> None) (map (\<lambda>x. Channel (snd x)) es))"
      by blast
    let ?tr = "ChannelClose (Channel cs) # tr"
    have "trace (OnStop_range X (a # es) w) = trace w @ ?tr \<and>
        chan_closes ?tr = [] \<and>
        channel_closes ?tr = map (\<lambda>x. Channel (snd x)) (a # es) \<and>
        logged LvlError ?tr =
          map (\<lambda>_. ''failed to close channel'')
            (filter (\<lambda>c. Channel_Close X c \<noteq> None) (map (\<lambda>x. Channel (snd x)) (a # es)))"
      using None a tr by (simp add: emit_def)
    then show ?thesis by blast
  next
    case (Some err)
    let ?w2 = "logger LvlError ''failed to close channel'' ?w1"
    from Cons.IH [of ?w2]
    obtain tr where tr: "trace (OnStop_range X es ?w2) = trace ?w2 @ tr"
        "chan_closes tr = []" "channel_closes tr = map (\<lambda>x. Channel (snd x)) es"
        "logged LvlError tr =
          map (\<lambda>_. ''failed to close channel'')
            (filter (\<lambda>c. Channel_Close X c \<noteq> None) (map (\<lambda>x. Channel (snd x)) es))"
      by blast
    let ?tr = "ChannelClose (Channel cs) # Logged LvlError ''failed to close channel'' # tr"
    have "trace (OnStop_range X (a # es) w) = trace w @ ?tr \<and>
        chan_closes ?tr = [] \<and>
        channel_closes ?tr = map (\<lambda>x. Channel (snd x)) (a # es) \<and>
        logged LvlError ?tr =
          map (\<lambda>_. ''failed to close channel'')
            (filter (\<lambda>c. Channel_Close X c \<noteq> None) (map (\<lambda>x. Channel (snd x)) (a # es)))"
      using Some a tr by (simp add: emit_def logger_def)
    then show ?thesis by blast
  qed
qed

text \<open>
  Outside the conditions of the theorems below: \<^verbatim>\<open>Receive\<close> on a reactor that is not running
  does nothing; a send on the closed peer-update channel and a second close of it panic.
\<close>

lemma Receive_not_running:
  "\<not> IsRunning (BaseReactor rs) \<Longrightarrow> Receive X chID src msgBytes rs w = Inr (rs, w)"
  by (simp add: Receive_def)

lemma peer_update_on_closed:
  assumes "PeerIDFromString X (Peer_ID peer) = Inr peerID"
    and "status w (PeerUpdateCh rs) = Closed"
  shows "AddPeer X peer rs w = Inl SendOnClosedChannel"
    and "RemovePeer X peer reason rs w = Inl SendOnClosedChannel"
  using assms by (simp_all add: AddPeer_def RemovePeer_def select_send_def)

lemma OnStop_on_closed:
  "status w (PeerUpdateCh rs) = Closed \<Longrightarrow> OnStop X es rs w = Inl CloseOfClosedChannel"
  by (simp add: OnStop_def close_chan_def OnStop_range_frame)

text \<open>No method changes its receiver.\<close>

lemma Receive_shim: "Receive X chID src msgBytes rs w = Inr (rs', w') \<Longrightarrow> rs' = rs"
  by (auto simp: Receive_def Let_def select_send_def
           split: if_splits option.splits sum.splits chan_status.splits prod.splits)

lemma AddPeer_shim: "AddPeer X peer rs w = Inr (rs', w') \<Longrightarrow> rs' = rs"
  by (auto simp: AddPeer_def select_send_def split: sum.splits chan_status.splits)

lemma RemovePeer_shim: "RemovePeer X peer reason rs w = Inr (rs', w') \<Longrightarrow> rs' = rs"
  by (auto simp: RemovePeer_def select_send_def split: sum.splits chan_status.splits)

lemma OnStop_shim: "OnStop X es rs w = Inr (rs', w') \<Longrightarrow> rs' = rs"
  by (auto simp: OnStop_def split: sum.splits)

lemma OnStart_shim: "OnStart es rs w = Inr (err, rs', w') \<Longrightarrow> rs' = rs"
  by (auto simp: OnStart_def split: if_splits sum.splits)

lemma GetChannels_shim: "GetChannels es rs w = Inr (ds, rs', w') \<Longrightarrow> rs' = rs"
  by (auto simp: GetChannels_def split: sum.splits)

lemma step_Channels: "step X c rs w = Inr (rs', w') \<Longrightarrow> Channels rs' = Channels rs"
proof (cases c)
  case (CallReceive chID src msgBytes)
  assume "step X c rs w = Inr (rs', w')"
  with CallReceive show ?thesis by (auto dest: Receive_shim)
next
  case (CallAddPeer peer)
  assume "step X c rs w = Inr (rs', w')"
  with CallAddPeer show ?thesis by (auto dest: AddPeer_shim)
next
  case (CallRemovePeer peer reason)
  assume "step X c rs w = Inr (rs', w')"
  with CallRemovePeer show ?thesis by (auto dest: RemovePeer_shim)
next
  case (CallOnStart es)
  assume "step X c rs w = Inr (rs', w')"
  with CallOnStart show ?thesis by (auto split: sum.splits dest: OnStart_shim)
next
  case (CallOnStop es)
  assume "step X c rs w = Inr (rs', w')"
  with CallOnStop show ?thesis by (auto dest: OnStop_shim)
next
  case (CallGetChannels es)
  assume "step X c rs w = Inr (rs', w')"
  with CallGetChannels show ?thesis by (auto split: sum.splits dest: GetChannels_shim)
next
  case (Environment br st)
  assume "step X c rs w = Inr (rs', w')"
  with Environment show ?thesis by auto
qed

lemma run_Channels: "run X calls rs w = Inr (rs', w') \<Longrightarrow> Channels rs' = Channels rs"
proof (induction calls arbitrary: rs w)
  case Nil
  then show ?case by simp
next
  case (Cons c calls)
  from Cons.prems obtain rs1 w1 where s: "step X c rs w = Inr (rs1, w1)"
      and r: "run X calls rs1 w1 = Inr (rs', w')"
    by (auto split: sum.splits)
  from Cons.IH [OF r] step_Channels [OF s] show ?case by simp
qed

text \<open>The example shims are the ones that \<^verbatim>\<open>NewShim\<close> builds.\<close>

lemma NewShim_shim2:
  "NewShim ''shim'' br_running (shims_of tds2) (Some val0) world0 = Inr (shim2, world2)"
  by (simp add: NewShim_def shims_of_def make_chan_def Let_def example_defs fun_eq_iff)

lemma NewShim_shim_dup:
  "NewShim ''shim'' br_new (shims_of tds_dup) None world0 = Inr (shim_dup, world2)"
  by (simp add: NewShim_def shims_of_def make_chan_def Let_def example_defs fun_eq_iff)

subsection \<open>Receive\<close>

text \<open>
  Claim C1, as amended. While the base reactor is running, for a channel ID that the map
  holds, bytes that decode, a validator (when one is configured) that accepts the message,
  and a source peer whose string ID parses: when a receiver is ready on the inbound
  endpoint of that channel, \<^verbatim>\<open>Receive\<close> returns and exactly one envelope is handed over, on that
  endpoint, with the decoded message and the parsed identity of the peer as its source;
  when the endpoint is open and no receiver is ready, \<^verbatim>\<open>Receive\<close> returns and no envelope is
  handed over.
\<close>

theorem Receive_delivers:
  assumes "IsRunning (BaseReactor rs)"
    and "map_of (Channels rs) (ChannelID chID) = Some cs"
    and "proto_Unmarshal X msgBytes (proto_Reset X (proto_Clone X (messageType (Channel cs)))) = Inr msg"
    and "\<forall>v. MessageValidator rs = Some v \<longrightarrow> Validate v chID src msgBytes msg = None"
    and "PeerIDFromString X (Peer_ID src) = Inr peerID"
  shows "(status w (InCh cs) = ReceiverReady \<longrightarrow>
           (\<exists>w'. Receive X chID src msgBytes rs w = Inr (rs, w') \<and>
                 sent_envelopes (trace w') =
                   sent_envelopes (trace w) @
                     [(InCh cs, \<lparr>From = peerID, To = PeerID_zero X, Message = msg\<rparr>)])) \<and>
         (status w (InCh cs) = NoReceiver \<longrightarrow>
           (\<exists>w'. Receive X chID src msgBytes rs w = Inr (rs, w') \<and>
                 sent_envelopes (trace w') = sent_envelopes (trace w)))"
  using assms
  by (cases "MessageValidator rs") (auto simp: Receive_def world_defs obs_append)

theorem Receive_delivers_witness:
  "(\<exists>w'. Receive X0 1 peer0 [7, 7] shim2 world_ready = Inr (shim2, w') \<and>
         sent_envelopes (trace w') = [(0, \<lparr>From = ''aa'', To = [], Message = 2\<rparr>)]) \<and>
   (\<exists>w'. Receive X0 1 peer0 [7, 7] shim2 world2 = Inr (shim2, w') \<and>
         sent_envelopes (trace w') = [])"
  using Receive_delivers [of shim2 1 cs1 X0 "[7, 7]" 2 peer0 "''aa''" world_ready]
        Receive_delivers [of shim2 1 cs1 X0 "[7, 7]" 2 peer0 "''aa''" world2]
  by (simp add: example_defs)

text \<open>
  The claim as it was stated fails while the base reactor is not running: the channel is
  configured, the bytes decode, the validator accepts, a receiver is ready, and \<^verbatim>\<open>Receive\<close>
  returns at its first line with nothing handed over. It fails as well for a peer whose
  string ID does not parse, where \<^verbatim>\<open>Receive\<close> panics.
\<close>

theorem Receive_not_running_counterexample:
  "map_of (Channels shim2_stopped) (ChannelID 1) = Some cs1 \<and>
   proto_Unmarshal X0 [7, 7] (proto_Reset X0 (proto_Clone X0 (messageType (Channel cs1)))) = Inr 2 \<and>
   MessageValidator shim2_stopped = Some val0 \<and>
   Validate val0 1 peer0 [7, 7] 2 = None \<and>
   PeerIDFromString X0 (Peer_ID peer0) = Inr ''aa'' \<and>
   status world_ready (InCh cs1) = ReceiverReady \<and>
   Receive X0 1 peer0 [7, 7] shim2_stopped world_ready = Inr (shim2_stopped, world_ready) \<and>
   sent_envelopes (trace world_ready) = [] \<and>
   Receive X0 1 peer_odd [7, 7] shim2 world_ready =
     Inl (Panic ''encoding/hex: odd length hex string'')"
  by (simp add: Receive_def example_defs)

text \<open>
  Claim C3, as amended. While the base reactor is running, for a channel ID that the map
  holds and bytes that fail to decode, \<^verbatim>\<open>Receive\<close> returns without a panic, no envelope is
  handed over on any channel, and the decode-failure hook of the validator, when one is
  configured, is called exactly once, with the channel ID, the source peer, the bytes as
  received and the decode error (and is not called when none is configured).
\<close>

theorem Receive_decode_failure:
  assumes "IsRunning (BaseReactor rs)"
    and "map_of (Channels rs) (ChannelID chID) = Some cs"
    and "proto_Unmarshal X msgBytes (proto_Reset X (proto_Clone X (messageType (Channel cs)))) = Inl err"
  shows "\<exists>w'. Receive X chID src msgBytes rs w = Inr (rs, w') \<and>
              sent_envelopes (trace w') = sent_envelopes (trace w) \<and>
              unmarshal_failures (trace w') =
                unmarshal_failures (trace w) @
                  (case MessageValidator rs of
                     None \<Rightarrow> []
                   | Some v \<Rightarrow> [(chID, src, msgBytes, err)])"
  using assms
  by (cases "MessageValidator rs") (auto simp: Receive_def world_defs obs_append)

theorem Receive_decode_failure_witness:
  "\<exists>w'. Receive X0 1 peer0 [] shim2 world_ready = Inr (shim2, w') \<and>
        sent_envelopes (trace w') = [] \<and>
        unmarshal_failures (trace w') = [(1, peer0, [], ''unexpected EOF'')]"
proof -
  have "IsRunning (BaseReactor shim2)"
    and "map_of (Channels shim2) (ChannelID 1) = Some cs1"
    and "proto_Unmarshal X0 [] (proto_Reset X0 (proto_Clone X0 (messageType (Channel cs1)))) =
           Inl ''unexpected EOF''"
    by (simp_all add: example_defs)
  from Receive_decode_failure [OF this, of peer0 world_ready]
  show ?thesis by (auto simp: shim2_def world_ready_def)
qed

text \<open>
  The claim as it was stated fails while the base reactor is not running: a validator is
  configured, the bytes do not decode, and its hook is not called.
\<close>

theorem Receive_decode_failure_not_running_counterexample:
  "map_of (Channels shim2_stopped) (ChannelID 1) = Some cs1 \<and>
   proto_Unmarshal X0 [] (proto_Reset X0 (proto_Clone X0 (messageType (Channel cs1)))) =
     Inl ''unexpected EOF'' \<and>
   MessageValidator shim2_stopped = Some val0 \<and>
   Receive X0 1 peer0 [] shim2_stopped world_ready = Inr (shim2_stopped, world_ready) \<and>
   unmarshal_failures (trace world_ready) = []"
  by (simp add: Receive_def example_defs)

text \<open>
  Claim C7, as amended. For a channel ID that the map does not hold, \<^verbatim>\<open>Receive\<close> returns
  without a panic, no envelope is handed over on any channel and neither hook of the
  validator is called; while the base reactor is running the only effect is the error
  logged, and while it is not running there is no effect at all.
\<close>

theorem Receive_unknown_channel:
  assumes "map_of (Channels rs) (ChannelID chID) = None"
  shows "\<exists>w'. Receive X chID src msgBytes rs w = Inr (rs, w') \<and>
              sent_envelopes (trace w') = sent_envelopes (trace w) \<and>
              unmarshal_failures (trace w') = unmarshal_failures (trace w) \<and>
              validate_calls (trace w') = validate_calls (trace w) \<and>
              w' = (if IsRunning (BaseReactor rs)
                    then w\<lparr>trace := trace w @ [Logged LvlError ''unexpected channel'']\<rparr>
                    else w)"
  using assms
  by (auto simp: Receive_def world_defs obs_append)

theorem Receive_unknown_channel_witness:
  "\<exists>w'. Receive X0 9 peer0 [7, 7] shim2 world_ready = Inr (shim2, w') \<and>
        sent_envelopes (trace w') = sent_envelopes (trace world_ready) \<and>
        unmarshal_failures (trace w') = unmarshal_failures (trace world_ready) \<and>
        validate_calls (trace w') = validate_calls (trace world_ready) \<and>
        w' = world_ready\<lparr>trace := trace world_ready @ [Logged LvlError ''unexpected channel'']\<rparr>"
proof -
  have "map_of (Channels shim2) (ChannelID 9) = None"
    by (simp add: example_defs)
  from Receive_unknown_channel [OF this, of X0 peer0 "[7, 7]" world_ready]
  show ?thesis by (simp add: shim2_def br_running_def)
qed

text \<open>
  The claim as it was stated fails while the base reactor is not running: the channel ID
  is not in the map, and no error is logged.
\<close>

theorem Receive_unknown_not_running_counterexample:
  "map_of (Channels shim2_stopped) (ChannelID 9) = None \<and>
   Receive X0 9 peer0 [7, 7] shim2_stopped world_ready = Inr (shim2_stopped, world_ready) \<and>
   logged LvlError (trace world_ready) = []"
  by (simp add: Receive_def example_defs)

text \<open>
  Claim C8. For a channel ID that the map holds, bytes that decode and a configured
  validator whose acceptance check rejects the message, \<^verbatim>\<open>Receive\<close> returns without a panic,
  no envelope is handed over on any channel, and the decode-failure hook is not called.
\<close>

theorem Receive_rejected:
  assumes "map_of (Channels rs) (ChannelID chID) = Some cs"
    and "proto_Unmarshal X msgBytes (proto_Reset X (proto_Clone X (messageType (Channel cs)))) = Inr msg"
    and "MessageValidator rs = Some v"
    and "Validate v chID src msgBytes msg = Some err"
  shows "\<exists>w'. Receive X chID src msgBytes rs w = Inr (rs, w') \<and>
              sent_envelopes (trace w') = sent_envelopes (trace w) \<and>
              unmarshal_failures (trace w') = unmarshal_failures (trace w)"
  using assms
  by (auto simp: Receive_def world_defs obs_append)

theorem Receive_rejected_witness:
  "\<exists>w'. Receive X0 1 peer0 [7] shim2 world_ready = Inr (shim2, w') \<and>
        sent_envelopes (trace w') = sent_envelopes (trace world_ready) \<and>
        unmarshal_failures (trace w') = unmarshal_failures (trace world_ready)"
proof -
  have "map_of (Channels shim2) (ChannelID 1) = Some cs1"
    and "proto_Unmarshal X0 [7] (proto_Reset X0 (proto_Clone X0 (messageType (Channel cs1)))) = Inr 1"
    and "MessageValidator shim2 = Some val0"
    and "Validate val0 1 peer0 [7] 1 = Some ''too short''"
    by (simp_all add: example_defs)
  from Receive_rejected [OF this, of world_ready]
  show ?thesis .
qed

subsection \<open>The outbound proxy\<close>

text \<open>
  Claim C2. \<^verbatim>\<open>proxyPeerEnvelopes\<close> starts exactly one proxy task for each channel of the map,
  with the ID of the channel's descriptor and the channel's outbound endpoint. For every
  envelope that the task of a channel takes from that endpoint (after the envelopes \<open>envs\<close>,
  which it has handled without a panic): when the destination does not resolve to a peer
  of the registry, or the message does not encode, the task panics; otherwise exactly one
  call of the resolved peer's \<^verbatim>\<open>Send\<close> is made, with the ID of the channel's descriptor and
  the encoded payload; and what \<^verbatim>\<open>Send\<close> returns changes nothing.
\<close>

theorem proxy_task_envelope:
  assumes "range_order es (Channels rs)"
    and "proxyPeerEnvelopes es w0 = Inr w0'"
    and "(k, c) \<in> set (Channels rs)"
    and "feed (OutCh c) = envs @ [e]"
  shows "\<exists>d ts. Descriptor c = Some d \<and>
           started_tasks (trace w0') = started_tasks (trace w0) @ ts \<and>
           mset (map Some ts) = mset (map (\<lambda>x. task_of (snd x)) (Channels rs)) \<and>
           (ID d, OutCh c) \<in> set ts \<and>
           (\<forall>w w1. proxy_task X rs (ID d, OutCh c) (feed(OutCh c := envs)) w = Inr w1 \<longrightarrow>
              ((case Switch_peers (BaseReactor rs) of
                  None \<Rightarrow> None
                | Some peers \<Rightarrow> peers (PeerID_String X (To e))) = None \<or>
               (\<exists>err. proto_Marshal X (Message e) = Inl err)
               \<longrightarrow> (\<exists>p. proxy_task X rs (ID d, OutCh c) feed w = Inl p)) \<and>
              (\<forall>peers src bz.
                 Switch_peers (BaseReactor rs) = Some peers \<and>
                 peers (PeerID_String X (To e)) = Some src \<and>
                 proto_Marshal X (Message e) = Inr bz
                 \<longrightarrow> (\<exists>w2. proxy_task X rs (ID d, OutCh c) feed w = Inr w2 \<and>
                            trace w2 = trace w1 @ [PeerSend src (ID d) bz] \<and>
                            peer_sends (trace w2) =
                              peer_sends (trace w1) @ [(src, ID d, bz)])) \<and>
              (\<forall>f. proxy_task (X\<lparr>Peer_Send := f\<rparr>) rs (ID d, OutCh c) feed w =
                    proxy_task X rs (ID d, OutCh c) feed w))"
proof -
  obtain ts where ts: "started_tasks (trace w0') = started_tasks (trace w0) @ ts"
      and m: "map Some ts = map (\<lambda>x. task_of (snd x)) es"
    using proxyPeerEnvelopes_tasks [OF assms(2)] by blast
  have "mset (map (\<lambda>x. task_of (snd x)) es) = mset (map (\<lambda>x. task_of (snd x)) (Channels rs))"
    using assms(1) by (metis range_order_def mset_map)
  with m have ms: "mset (map Some ts) = mset (map (\<lambda>x. task_of (snd x)) (Channels rs))"
    by simp
  have "task_of c \<in> set (map (\<lambda>x. task_of (snd x)) (Channels rs))"
    using assms(3) by force
  then have "task_of c \<in> set (map Some ts)"
    using ms by (metis set_mset_mset)
  then obtain t where t: "t \<in> set ts" and tc: "task_of c = Some t" by auto
  then obtain d where d: "Descriptor c = Some d" and td: "t = (ID d, OutCh c)"
    by (auto simp: task_of_def split: option.splits)
  have out: "\<forall>w w1. proxy_task X rs (ID d, OutCh c) (feed(OutCh c := envs)) w = Inr w1 \<longrightarrow>
              ((case Switch_peers (BaseReactor rs) of
                  None \<Rightarrow> None
                | Some peers \<Rightarrow> peers (PeerID_String X (To e))) = None \<or>
               (\<exists>err. proto_Marshal X (Message e) = Inl err)
               \<longrightarrow> (\<exists>p. proxy_task X rs (ID d, OutCh c) feed w = Inl p)) \<and>
              (\<forall>peers src bz.
                 Switch_peers (BaseReactor rs) = Some peers \<and>
                 peers (PeerID_String X (To e)) = Some src \<and>
                 proto_Marshal X (Message e) = Inr bz
                 \<longrightarrow> (\<exists>w2. proxy_task X rs (ID d, OutCh c) feed w = Inr w2 \<and>
                            trace w2 = trace w1 @ [PeerSend src (ID d) bz] \<and>
                            peer_sends (trace w2) =
                              peer_sends (trace w1) @ [(src, ID d, bz)])) \<and>
              (\<forall>f. proxy_task (X\<lparr>Peer_Send := f\<rparr>) rs (ID d, OutCh c) feed w =
                    proxy_task X rs (ID d, OutCh c) feed w)"
    (is "\<forall>w w1. ?A w w1 \<longrightarrow> ?B w w1")
  proof (intro allI impI)
    fix w w1
    assume a: "?A w w1"
    show "?B w w1"
      using proxy_task_outcome [of X rs "ID d" "OutCh c" feed envs w w1 e, OF a assms(4)] .
  qed
  from t td have mem: "(ID d, OutCh c) \<in> set ts" by simp
  show ?thesis
    using d ts ms mem out by (intro exI [of _ d] exI [of _ ts] conjI) assumption+
qed

theorem proxy_task_envelope_witness:
  "started_tasks (trace world_started) = [(2, 4), (1, 1)] \<and>
   (\<exists>w2. proxy_task X0 shim2 (1, 1)
            (\<lambda>ch. if ch = 1 then [\<lparr>From = [], To = ''aa'', Message = 2\<rparr>] else []) world2 = Inr w2 \<and>
         trace w2 = trace world2 @ [PeerSend peer0 1 [0, 0]]) \<and>
   (\<exists>p. proxy_task X0 shim2 (1, 1)
            (\<lambda>ch. if ch = 1 then [\<lparr>From = [], To = ''bb'', Message = 2\<rparr>] else []) world2 = Inl p)"
proof -
  let ?aa = "\<lparr>From = [], To = ''aa'', Message = 2 :: nat\<rparr>"
  let ?bb = "\<lparr>From = [], To = ''bb'', Message = 2 :: nat\<rparr>"
  let ?fa = "\<lambda>ch :: nat. if ch = 1 then [?aa] else []"
  let ?fb = "\<lambda>ch :: nat. if ch = 1 then [?bb] else []"
  let ?pf = "\<lambda>s. if s = ''aa'' then Some peer0 else None"
  have ro: "range_order [(2, cs2), (1, cs1)] (Channels shim2)"
    by (simp add: range_order_def shim2_def)
  have st: "proxyPeerEnvelopes [(2, cs2), (1, cs1)] world2 = Inr world_started"
    by (simp add: emit_def world_started_def world2_def cs1_def cs2_def)
  have mem: "(1, cs1) \<in> set (Channels shim2)"
    by (simp add: shim2_def)
  have out1: "OutCh cs1 = 1"
    by (simp add: cs1_def)
  have fa: "?fa (OutCh cs1) = [] @ [?aa]" and fb: "?fb (OutCh cs1) = [] @ [?bb]"
    by (simp_all add: out1)
  have tasks: "started_tasks (trace world_started) = [(2, 4), (1, 1)]"
    by (simp add: world_started_def world2_def)
  have resolve_aa: "Switch_peers (BaseReactor shim2) = Some ?pf \<and>
      ?pf (PeerID_String X0 (To ?aa)) = Some peer0 \<and>
      proto_Marshal X0 (Message ?aa) = Inr [0, 0]"
    by (simp add: shim2_def br_running_def X0_def numeral_2_eq_2)
  have resolve_bb: "(case Switch_peers (BaseReactor shim2) of
                  None \<Rightarrow> None
                | Some peers \<Rightarrow> peers (PeerID_String X0 (To ?bb))) = None"
    by (simp add: shim2_def br_running_def X0_def)
  from proxy_task_envelope
         [of "[(2, cs2), (1, cs1)]" shim2 world2 world_started 1 cs1 ?fa "[]" ?aa X0,
          OF ro st mem fa]
  obtain d where d: "Descriptor cs1 = Some d"
    and out: "\<forall>w w1. proxy_task X0 shim2 (ID d, OutCh cs1) (?fa(OutCh cs1 := [])) w = Inr w1 \<longrightarrow>
              (\<forall>peers src bz.
                 Switch_peers (BaseReactor shim2) = Some peers \<and>
                 peers (PeerID_String X0 (To ?aa)) = Some src \<and>
                 proto_Marshal X0 (Message ?aa) = Inr bz
                 \<longrightarrow> (\<exists>w2. proxy_task X0 shim2 (ID d, OutCh cs1) ?fa w = Inr w2 \<and>
                            trace w2 = trace w1 @ [PeerSend src (ID d) bz]))"
    by blast
  from d have id: "ID d = 1"
    by (auto simp: cs1_def)
  have run_a: "proxy_task X0 shim2 (ID d, OutCh cs1) (?fa(OutCh cs1 := [])) world2 = Inr world2"
    by (simp add: proxy_task_def)
  from out run_a resolve_aa
  have "\<exists>w2. proxy_task X0 shim2 (ID d, OutCh cs1) ?fa world2 = Inr w2 \<and>
                trace w2 = trace world2 @ [PeerSend peer0 (ID d) [0, 0]]"
    by blast
  then have a: "\<exists>w2. proxy_task X0 shim2 (1, 1) ?fa world2 = Inr w2 \<and>
                trace w2 = trace world2 @ [PeerSend peer0 1 [0, 0]]"
    by (simp only: id out1)
  from proxy_task_envelope
         [of "[(2, cs2), (1, cs1)]" shim2 world2 world_started 1 cs1 ?fb "[]" ?bb X0,
          OF ro st mem fb]
  obtain d' where d': "Descriptor cs1 = Some d'"
    and out': "\<forall>w w1. proxy_task X0 shim2 (ID d', OutCh cs1) (?fb(OutCh cs1 := [])) w = Inr w1 \<longrightarrow>
              ((case Switch_peers (BaseReactor shim2) of
                  None \<Rightarrow> None
                | Some peers \<Rightarrow> peers (PeerID_String X0 (To ?bb))) = None \<or>
               (\<exists>err. proto_Marshal X0 (Message ?bb) = Inl err)
               \<longrightarrow> (\<exists>p. proxy_task X0 shim2 (ID d', OutCh cs1) ?fb w = Inl p))"
    by blast
  from d' have id': "ID d' = 1"
    by (auto simp: cs1_def)
  have run_b: "proxy_task X0 shim2 (ID d', OutCh cs1) (?fb(OutCh cs1 := [])) world2 = Inr world2"
    by (simp add: proxy_task_def)
  from out' run_b resolve_bb
  have "\<exists>p. proxy_task X0 shim2 (ID d', OutCh cs1) ?fb world2 = Inl p"
    by blast
  then have b: "\<exists>p. proxy_task X0 shim2 (1, 1) ?fb world2 = Inl p"
    by (simp only: id' out1)
  from tasks a b show ?thesis by blast
qed

subsection \<open>Channel enumeration\<close>

text \<open>
  Claim C4, as amended. For every list of non-nil descriptors in which no two different
  descriptors have the same channel ID, \<^verbatim>\<open>NewShim\<close> returns a shim, and on it \<^verbatim>\<open>GetChannels\<close>
  returns, whatever the order of its visit of the map, a slice whose set of descriptors is
  the set of the descriptors configured.
\<close>

theorem GetChannels_configured_set:
  fixes tds :: "('m \<times> 'z ChannelDescriptor_scheme) list" and w0 :: "('m, 'p) world"
  assumes "\<forall>a \<in> snd ` set tds. \<forall>b \<in> snd ` set tds. ID a = ID b \<longrightarrow> a = b"
  shows "\<exists>rs w1. NewShim name br (shims_of tds) msgVal w0 = Inr (rs, w1) \<and>
           (\<forall>es (w :: ('m, 'p) world). range_order es (Channels rs) \<longrightarrow>
              (\<exists>ds. GetChannels es rs w = Inr (ds, rs, w) \<and> set ds = Some ` snd ` set tds))"
proof -
  obtain rs w1 where r: "NewShim name br (shims_of tds) msgVal w0 = Inr (rs, w1)"
    and d: "distinct (map fst (Channels rs))"
    and v: "\<forall>k. map_option shim_view (map_of (Channels rs) k) =
           (case last_with k tds of Some (t, d) \<Rightarrow> Some (t, Some d) | None \<Rightarrow> None)"
    using NewShim_shims_of [of name br tds msgVal w0] by blast
  have "\<exists>ds. GetChannels es rs w = Inr (ds, rs, w) \<and> set ds = Some ` snd ` set tds"
    if ro: "range_order es (Channels rs)" for es and w :: "('m, 'p) world"
  proof -
    have "set es = set (Channels rs)"
      using ro by (metis range_order_def set_mset_mset)
    then have "set (map (\<lambda>x. Descriptor (snd x)) es) = Some ` snd ` set tds"
      using descriptors_of_view [OF d v assms] by simp
    then show ?thesis
      using GetChannels_returns [OF ro, of w] by blast
  qed
  with r show ?thesis by blast
qed

theorem GetChannels_configured_set_witness:
  "\<exists>ds. GetChannels [(2, cs2), (1, cs1)] shim2 world2 = Inr (ds, shim2, world2) \<and>
        set ds = {Some \<lparr>ID = 1, Priority = 5\<rparr>, Some \<lparr>ID = 2, Priority = 6\<rparr>}"
  using GetChannels_configured_set [of tds2 "''shim''" br_running "Some val0" world0]
  by (simp add: NewShim_shim2) (simp add: example_defs range_order_def)

text \<open>
  The claim as it was stated fails for two different descriptors with the same channel
  ID: the map keeps one entry for the ID, and \<^verbatim>\<open>GetChannels\<close> returns the second descriptor
  only.
\<close>

theorem GetChannels_duplicate_counterexample:
  "NewShim ''shim'' br_new (shims_of tds_dup) None world0 = Inr (shim_dup, world2) \<and>
   range_order [(1, cs_dup)] (Channels shim_dup) \<and>
   GetChannels [(1, cs_dup)] shim_dup world2 =
     Inr ([Some \<lparr>ID = 1, Priority = 6\<rparr>], shim_dup, world2) \<and>
   set [Some \<lparr>ID = 1, Priority = 6\<rparr>] \<noteq> Some ` snd ` set tds_dup"
  by (simp add: NewShim_shim_dup) (simp add: GetChannels_def range_order_def example_defs)

text \<open>
  Claim C10. From a list of non-nil descriptors \<^verbatim>\<open>NewShim\<close> builds a map with one entry for
  each distinct channel ID, and the entry of an ID holds the descriptor and the message
  type of the last list element with that ID; so the slice that \<^verbatim>\<open>GetChannels\<close> returns has as
  many elements as there are distinct IDs, which is fewer than the list has when two of
  its descriptors share an ID.
\<close>

theorem NewShim_duplicate_ids:
  fixes tds :: "('m \<times> 'z ChannelDescriptor_scheme) list" and w0 :: "('m, 'p) world"
  shows "\<exists>rs w1. NewShim name br (shims_of tds) msgVal w0 = Inr (rs, w1) \<and>
     distinct (map fst (Channels rs)) \<and>
     fst ` set (Channels rs) = (\<lambda>x. ChannelID (ID (snd x))) ` set tds \<and>
     (\<forall>k cs. map_of (Channels rs) k = Some cs \<longrightarrow>
        (\<exists>t d. last_with k tds = Some (t, d) \<and> Descriptor cs = Some d \<and>
               messageType (Channel cs) = t)) \<and>
     (\<forall>es (w :: ('m, 'p) world). range_order es (Channels rs) \<longrightarrow>
        (\<exists>ds. GetChannels es rs w = Inr (ds, rs, w) \<and>
              length ds = card (ID ` snd ` set tds) \<and>
              (\<not> distinct (map (\<lambda>x. ID (snd x)) tds) \<longrightarrow> length ds < length tds)))"
proof -
  obtain rs w1 where r: "NewShim name br (shims_of tds) msgVal w0 = Inr (rs, w1)"
    and d: "distinct (map fst (Channels rs))"
    and v: "\<forall>k. map_option shim_view (map_of (Channels rs) k) =
           (case last_with k tds of Some (t, d) \<Rightarrow> Some (t, Some d) | None \<Rightarrow> None)"
    using NewShim_shims_of [of name br tds msgVal w0] by blast
  have keys: "fst ` set (Channels rs) = (\<lambda>x. ChannelID (ID (snd x))) ` set tds"
    using keys_of_view [OF v] .
  have last: "\<exists>t d. last_with k tds = Some (t, d) \<and> Descriptor cs = Some d \<and>
                    messageType (Channel cs) = t"
    if "map_of (Channels rs) k = Some cs" for k cs
    using v [rule_format, of k] that by (auto simp: shim_view_def split: option.splits)
  have "length (Channels rs) = card (fst ` set (Channels rs))"
    using d by (metis distinct_card length_map set_map)
  also have "\<dots> = card (ChannelID ` ID ` snd ` set tds)"
    by (simp add: keys image_image)
  also have "\<dots> = card (ID ` snd ` set tds)"
    by (rule card_image) (simp add: inj_on_def ChannelID_inj)
  finally have len: "length (Channels rs) = card (ID ` snd ` set tds)" .
  have less: "card (ID ` snd ` set tds) < length tds"
    if "\<not> distinct (map (\<lambda>x. ID (snd x)) tds)"
  proof -
    have "card (set (map (\<lambda>x. ID (snd x)) tds)) \<noteq> length (map (\<lambda>x. ID (snd x)) tds)"
      using that card_distinct by blast
    moreover have "card (set (map (\<lambda>x. ID (snd x)) tds)) \<le> length (map (\<lambda>x. ID (snd x)) tds)"
      by (rule card_length)
    ultimately show ?thesis by (simp add: image_image)
  qed
  have "\<exists>ds. GetChannels es rs w = Inr (ds, rs, w) \<and>
              length ds = card (ID ` snd ` set tds) \<and>
              (\<not> distinct (map (\<lambda>x. ID (snd x)) tds) \<longrightarrow> length ds < length tds)"
    if ro: "range_order es (Channels rs)" for es and w :: "('m, 'p) world"
  proof -
    have "length es = length (Channels rs)"
      using ro by (metis range_order_def size_mset)
    then show ?thesis
      using GetChannels_returns [OF ro, of w] len less by auto
  qed
  with r d keys last show ?thesis by blast
qed

theorem NewShim_duplicate_ids_witness:
  "GetChannels [(1, cs_dup)] shim_dup world2 =
     Inr ([Some \<lparr>ID = 1, Priority = 6\<rparr>], shim_dup, world2) \<and>
   length [Some \<lparr>ID = 1, Priority = 6\<rparr>] = card (ID ` snd ` set tds_dup) \<and>
   length [Some \<lparr>ID = 1, Priority = 6\<rparr>] < length tds_dup"
proof -
  from NewShim_duplicate_ids [of "''shim''" br_new tds_dup None world0]
  have "\<forall>es (w :: (nat, string) world). range_order es (Channels shim_dup) \<longrightarrow>
        (\<exists>ds. GetChannels es shim_dup w = Inr (ds, shim_dup, w) \<and>
              length ds = card (ID ` snd ` set tds_dup) \<and>
              (\<not> distinct (map (\<lambda>x. ID (snd x)) tds_dup) \<longrightarrow> length ds < length tds_dup))"
    by (simp add: NewShim_shim_dup)
  moreover have "range_order [(1, cs_dup)] (Channels shim_dup)"
    by (simp add: range_order_def shim_dup_def)
  ultimately obtain ds where
      "GetChannels [(1, cs_dup)] shim_dup world2 = Inr (ds, shim_dup, world2)"
      "length ds = card (ID ` snd ` set tds_dup)"
      "\<not> distinct (map (\<lambda>x. ID (snd x)) tds_dup) \<longrightarrow> length ds < length tds_dup"
    by blast
  moreover have "GetChannels [(1, cs_dup)] shim_dup world2 =
     Inr ([Some \<lparr>ID = 1, Priority = 6\<rparr>], shim_dup, world2)"
    by (simp add: GetChannels_def shim_dup_def cs_dup_def)
  moreover have "\<not> distinct (map (\<lambda>x. ID (snd x)) tds_dup)"
    by (simp add: tds_dup_def)
  ultimately show ?thesis by simp
qed

subsection \<open>Peer updates\<close>

text \<open>
  Claim C5, as amended. For a peer whose string ID parses: \<^verbatim>\<open>AddPeer\<close> and then \<^verbatim>\<open>RemovePeer\<close> for that peer,
  with a receiver ready on the peer-update channel at both attempts (whatever else has
  happened to the channels in between), both return, and exactly two peer updates are
  handed over, on that channel: the first with the status Up, the second with the status
  Down, both with the parsed identity. When the channel is open and no receiver is ready
  at an attempt, the call returns and hands nothing over: the update is dropped.
\<close>

theorem AddPeer_RemovePeer_updates:
  assumes "PeerIDFromString X (Peer_ID peer) = Inr peerID"
  shows "(status w (PeerUpdateCh rs) = ReceiverReady \<and> st (PeerUpdateCh rs) = ReceiverReady \<longrightarrow>
           (\<exists>w1 w2. AddPeer X peer rs w = Inr (rs, w1) \<and>
                    RemovePeer X peer reason rs (w1\<lparr>status := st\<rparr>) = Inr (rs, w2) \<and>
                    sent_peer_updates (trace w2) =
                      sent_peer_updates (trace w) @
                        [(PeerUpdateCh rs, \<lparr>PeerID = peerID, Status = PeerStatusUp\<rparr>),
                         (PeerUpdateCh rs, \<lparr>PeerID = peerID, Status = PeerStatusDown\<rparr>)])) \<and>
         (status w (PeerUpdateCh rs) = NoReceiver \<longrightarrow>
           (\<exists>w1. AddPeer X peer rs w = Inr (rs, w1) \<and>
                 sent_peer_updates (trace w1) = sent_peer_updates (trace w)) \<and>
           (\<exists>w1. RemovePeer X peer reason rs w = Inr (rs, w1) \<and>
                 sent_peer_updates (trace w1) = sent_peer_updates (trace w)))"
  using assms
  by (auto simp: AddPeer_def RemovePeer_def world_defs obs_append)

theorem AddPeer_RemovePeer_updates_witness:
  "(\<exists>w1 w2. AddPeer X0 peer0 shim2 world_ready = Inr (shim2, w1) \<and>
            RemovePeer X0 peer0 ''bye'' shim2 (w1\<lparr>status := (\<lambda>c. ReceiverReady)\<rparr>) = Inr (shim2, w2) \<and>
            sent_peer_updates (trace w2) =
              [(6, \<lparr>PeerID = ''aa'', Status = PeerStatusUp\<rparr>),
               (6, \<lparr>PeerID = ''aa'', Status = PeerStatusDown\<rparr>)]) \<and>
   (\<exists>w1. AddPeer X0 peer0 shim2 world2 = Inr (shim2, w1) \<and> sent_peer_updates (trace w1) = [])"
  using AddPeer_RemovePeer_updates [of X0 peer0 "''aa''" world_ready shim2 "\<lambda>c. ReceiverReady" "''bye''"]
        AddPeer_RemovePeer_updates [of X0 peer0 "''aa''" world2 shim2 "\<lambda>c. ReceiverReady" "''bye''"]
  by (simp add: example_defs)

text \<open>
  The claim as it was stated fails on the peer-update channel that the shim's own \<^verbatim>\<open>OnStop\<close>
  has closed: no receiver is ready on it, and \<^verbatim>\<open>AddPeer\<close> and \<^verbatim>\<open>RemovePeer\<close> panic at the send
  and do not drop the update.
\<close>

theorem AddPeer_closed_counterexample:
  "OnStop X0 (Channels shim2) shim2 world2 = Inr (shim2, world_stopped) \<and>
   PeerIDFromString X0 (Peer_ID peer0) = Inr ''aa'' \<and>
   status world_stopped (PeerUpdateCh shim2) = Closed \<and>
   AddPeer X0 peer0 shim2 world_stopped = Inl SendOnClosedChannel \<and>
   RemovePeer X0 peer0 ''bye'' shim2 world_stopped = Inl SendOnClosedChannel"
  by (simp add: OnStop_def close_chan_def AddPeer_def RemovePeer_def world_defs example_defs)

subsection \<open>OnStop\<close>

text \<open>
  Claim C6, as amended. When the peer-update channel is not closed yet, \<^verbatim>\<open>OnStop\<close> returns
  without a panic, whatever the calls of \<^verbatim>\<open>Close\<close> return: \<^verbatim>\<open>Close\<close> is called once on the handle
  of every entry of the map, one error is logged for each call that fails, and after all
  of these the peer-update channel is closed, once, as the last effect.
\<close>

theorem OnStop_closes:
  assumes "status w (PeerUpdateCh rs) \<noteq> Closed"
    and "range_order es (Channels rs)"
  shows "\<exists>w' tr. OnStop X es rs w = Inr (rs, w') \<and>
           trace w' = trace w @ tr @ [ChanClosed (PeerUpdateCh rs)] \<and>
           chan_closes tr = [] \<and>
           mset (channel_closes tr) = mset (map (\<lambda>x. Channel (snd x)) (Channels rs)) \<and>
           length (logged LvlError tr) =
             length (filter (\<lambda>c. Channel_Close X c \<noteq> None)
                       (map (\<lambda>x. Channel (snd x)) (Channels rs))) \<and>
           status w' (PeerUpdateCh rs) = Closed"
proof -
  obtain tr where tr: "trace (OnStop_range X es w) = trace w @ tr"
      "chan_closes tr = []" "channel_closes tr = map (\<lambda>x. Channel (snd x)) es"
      "logged LvlError tr =
        map (\<lambda>_. ''failed to close channel'')
          (filter (\<lambda>c. Channel_Close X c \<noteq> None) (map (\<lambda>x. Channel (snd x)) es))"
    using OnStop_range_trace [of X es w] by blast
  have m: "mset (map (\<lambda>x. Channel (snd x)) es) = mset (map (\<lambda>x. Channel (snd x)) (Channels rs))"
    using assms(2) by (metis range_order_def mset_map)
  have "size (filter_mset (\<lambda>c. Channel_Close X c \<noteq> None) (mset (map (\<lambda>x. Channel (snd x)) es))) =
        size (filter_mset (\<lambda>c. Channel_Close X c \<noteq> None)
                (mset (map (\<lambda>x. Channel (snd x)) (Channels rs))))"
    using m by simp
  then have l: "length (filter (\<lambda>c. Channel_Close X c \<noteq> None) (map (\<lambda>x. Channel (snd x)) es)) =
        length (filter (\<lambda>c. Channel_Close X c \<noteq> None) (map (\<lambda>x. Channel (snd x)) (Channels rs)))"
    by (simp only: mset_filter [symmetric] size_mset)
  let ?w' = "emit (ChanClosed (PeerUpdateCh rs))
               ((OnStop_range X es w)
                  \<lparr>status := (status (OnStop_range X es w))(PeerUpdateCh rs := Closed)\<rparr>)"
  have "OnStop X es rs w = Inr (rs, ?w')"
    using assms(1)
    by (cases "status w (PeerUpdateCh rs)")
       (simp_all add: OnStop_def close_chan_def OnStop_range_frame)
  moreover have "trace ?w' = trace w @ tr @ [ChanClosed (PeerUpdateCh rs)]"
    using tr(1) by (simp add: emit_def)
  moreover have "status ?w' (PeerUpdateCh rs) = Closed"
    by (simp add: emit_def)
  ultimately show ?thesis
    using tr m l by (intro exI [of _ ?w'] exI [of _ tr]) simp
qed

theorem OnStop_closes_witness:
  "\<exists>w' tr. OnStop X0 [(2, cs2), (1, cs1)] shim2 world2 = Inr (shim2, w') \<and>
     trace w' = trace world2 @ tr @ [ChanClosed (PeerUpdateCh shim2)] \<and>
     chan_closes tr = [] \<and>
     mset (channel_closes tr) = {#Channel cs1, Channel cs2#} \<and>
     length (logged LvlError tr) = 1 \<and>
     status w' (PeerUpdateCh shim2) = Closed"
proof -
  have "status world2 (PeerUpdateCh shim2) \<noteq> Closed"
    and "range_order [(2, cs2), (1, cs1)] (Channels shim2)"
    by (simp_all add: shim2_def world2_def range_order_def)
  from OnStop_closes [OF this, of X0]
  show ?thesis by (simp add: X0_def shim2_def cs1_def cs2_def NewChannel_def)
qed

text \<open>
  The claim as it was stated fails on a shim whose peer-update channel is closed already:
  a first \<^verbatim>\<open>OnStop\<close> of the example shim returns and leaves the channel closed, and a second
  one panics at the close of the closed channel.
\<close>

theorem OnStop_twice_counterexample:
  "status world2 (PeerUpdateCh shim2) = NoReceiver \<and>
   OnStop X0 (Channels shim2) shim2 world2 = Inr (shim2, world_stopped) \<and>
   OnStop X0 (Channels shim2) shim2 world_stopped = Inl CloseOfClosedChannel"
  by (simp add: OnStop_def close_chan_def world_defs example_defs)

subsection \<open>The channel map\<close>

text \<open>
  Claim C9. \<^verbatim>\<open>NewShim\<close> builds the whole map: its keys are distinct and are the channel IDs of
  the descriptors given. After every sequence of calls of \<^verbatim>\<open>Receive\<close>, \<^verbatim>\<open>AddPeer\<close>, \<^verbatim>\<open>RemovePeer\<close>,
  \<^verbatim>\<open>OnStart\<close>, \<^verbatim>\<open>OnStop\<close> and \<^verbatim>\<open>GetChannels\<close> that returns, in any world and with any steps of the
  rest of the program in between, the map of the shim is the map that \<^verbatim>\<open>NewShim\<close> built:
  every channel ID has the channel shim it had.
\<close>

theorem Channels_never_mutated:
  fixes tds :: "('m \<times> 'z ChannelDescriptor_scheme) list" and w0 :: "('m, 'p) world"
    and X :: "('m, 'p) externals"
  shows "\<exists>rs w1. NewShim name br (shims_of tds) msgVal w0 = Inr (rs, w1) \<and>
           distinct (map fst (Channels rs)) \<and>
           fst ` set (Channels rs) = (\<lambda>x. ChannelID (ID (snd x))) ` set tds \<and>
           (\<forall>calls w rs' w'. run X calls rs w = Inr (rs', w') \<longrightarrow>
              Channels rs' = Channels rs \<and>
              (\<forall>k. map_of (Channels rs') k = map_of (Channels rs) k))"
proof -
  obtain rs w1 where r: "NewShim name br (shims_of tds) msgVal w0 = Inr (rs, w1)"
    and d: "distinct (map fst (Channels rs))"
    and v: "\<forall>k. map_option shim_view (map_of (Channels rs) k) =
           (case last_with k tds of Some (t, d) \<Rightarrow> Some (t, Some d) | None \<Rightarrow> None)"
    using NewShim_shims_of [of name br tds msgVal w0] by blast
  have "Channels rs' = Channels rs \<and> (\<forall>k. map_of (Channels rs') k = map_of (Channels rs) k)"
    if "run X calls rs w = Inr (rs', w')" for calls rs' and w w' :: "('m, 'p) world"
    using run_Channels [OF that] by simp
  with r d keys_of_view [OF v] show ?thesis by blast
qed

theorem Channels_never_mutated_witness:
  "\<exists>rs' w'. run X0 [CallAddPeer peer0, CallReceive 1 peer0 [7, 7],
                     CallGetChannels [(2, cs2), (1, cs1)], CallOnStop [(2, cs2), (1, cs1)],
                     Environment br_new (\<lambda>c. Closed), CallReceive 1 peer0 [7, 7],
                     CallOnStart [(1, cs1), (2, cs2)]]
               shim2 world2 = Inr (rs', w') \<and>
            Channels rs' = Channels shim2"
proof -
  let ?calls = "[CallAddPeer peer0, CallReceive 1 peer0 [7, 7],
                     CallGetChannels [(2, cs2), (1, cs1)], CallOnStop [(2, cs2), (1, cs1)],
                     Environment br_new (\<lambda>c. Closed), CallReceive 1 peer0 [7, 7],
                     CallOnStart [(1, cs1), (2, cs2)]]"
  from Channels_never_mutated [of "''shim''" br_running tds2 "Some val0" world0 X0]
  have a: "\<forall>calls w rs' w'. run X0 calls shim2 w = Inr (rs', w') \<longrightarrow> Channels rs' = Channels shim2"
    by (simp add: NewShim_shim2)
  have "\<exists>rs' w'. run X0 ?calls shim2 world2 = Inr (rs', w')"
    by (simp add: Receive_def AddPeer_def RemovePeer_def OnStop_def OnStart_def
          GetChannels_def close_chan_def world_defs example_defs)
  with a show ?thesis by blast
qed

end
